theory Spec2Isabelle
  imports Complex_Main
begin

text \<open>
  The tree induction engine of \<^verbatim>\<open>bayesian_decision_tree\<close>: the node lifecycle of
  \<^verbatim>\<open>base.py\<close> (\<^verbatim>\<open>fit\<close>, \<^verbatim>\<open>predict\<close>, \<^verbatim>\<open>depth_and_leaves\<close>) and the hyperplane
  strategy of \<^verbatim>\<open>base_hyperplane.py\<close> (\<^verbatim>\<open>_fit\<close>, \<^verbatim>\<open>is_leaf\<close>, \<^verbatim>\<open>_prune\<close>,
  \<^verbatim>\<open>_compute_child1_and_child2_indices\<close>). A node is a value; a method that assigns to
  attributes returns the new node, and a method that raises returns the exception.
\<close>

section \<open>Data model\<close>

text \<open>
  The exceptions the modelled methods can raise. The two value errors of
  \<^verbatim>\<open>_ensure_is_fitted\<close> carry what their messages name: the expected dimension
  (\<^verbatim>\<open>self.n_dim\<close>, possibly \<^verbatim>\<open>None\<close>) and the actual one (\<^verbatim>\<open>X.shape[1]\<close>).
  \<open>DeltaRange\<close> is the value error of \<^verbatim>\<open>fit\<close>; \<open>ShapesNotAligned\<close> is the value error
  numpy raises when the shapes or dimensions of operands do not fit, \<open>ZeroSizeArray\<close> the
  one it raises for the minimum of an empty array.
\<close>

datatype value_error =
    Untrained
  | BadInputDimensions "nat option" nat
  | DeltaRange
  | ShapesNotAligned
  | ZeroSizeArray

datatype error =
    ValueError value_error
  | TypeError
  | AttributeError
  | IndexError
  | AssertionError

text \<open>
  An entry of a floating-point array: a number, one of the two infinities, or NaN.
  Arithmetic on numbers is exact (rounding and overflow are not modelled); the infinities
  and NaN combine as IEEE 754 has it, and both \<^verbatim>\<open>x < 0\<close> and \<^verbatim>\<open>x >= 0\<close> are false for
  NaN.
\<close>

datatype float = Finite real | PInf | MInf | NaN

fun fadd :: "float \<Rightarrow> float \<Rightarrow> float" where
  "fadd (Finite a) (Finite b) = Finite (a + b)"
| "fadd (Finite a) PInf = PInf"
| "fadd (Finite a) MInf = MInf"
| "fadd PInf (Finite b) = PInf"
| "fadd PInf PInf = PInf"
| "fadd PInf MInf = NaN"
| "fadd MInf (Finite b) = MInf"
| "fadd MInf PInf = NaN"
| "fadd MInf MInf = MInf"
| "fadd NaN y = NaN"
| "fadd x NaN = NaN"

fun fneg :: "float \<Rightarrow> float" where
  "fneg (Finite a) = Finite (- a)"
| "fneg PInf = MInf"
| "fneg MInf = PInf"
| "fneg NaN = NaN"

definition fsub :: "float \<Rightarrow> float \<Rightarrow> float" where
  "fsub x y = fadd x (fneg y)"

text \<open>The product of an infinity with a number: zero times infinity is NaN.\<close>

definition scale_inf :: "real \<Rightarrow> float \<Rightarrow> float" where
  "scale_inf a s = (if a = 0 then NaN else if a > 0 then s else fneg s)"

fun fmul :: "float \<Rightarrow> float \<Rightarrow> float" where
  "fmul (Finite a) (Finite b) = Finite (a * b)"
| "fmul (Finite a) PInf = scale_inf a PInf"
| "fmul (Finite a) MInf = scale_inf a MInf"
| "fmul PInf (Finite b) = scale_inf b PInf"
| "fmul MInf (Finite b) = scale_inf b MInf"
| "fmul PInf PInf = PInf"
| "fmul PInf MInf = MInf"
| "fmul MInf PInf = MInf"
| "fmul MInf MInf = PInf"
| "fmul NaN y = NaN"
| "fmul x NaN = NaN"

text \<open>The comparisons \<^verbatim>\<open>x < 0\<close> and \<^verbatim>\<open>x >= 0\<close>.\<close>

fun flt0 :: "float \<Rightarrow> bool" where
  "flt0 (Finite a) = (a < 0)"
| "flt0 MInf = True"
| "flt0 PInf = False"
| "flt0 NaN = False"

fun fge0 :: "float \<Rightarrow> bool" where
  "fge0 (Finite a) = (a \<ge> 0)"
| "fge0 PInf = True"
| "fge0 MInf = False"
| "fge0 NaN = False"

text \<open>
  A two-dimensional array of floating-point values: \<open>shape1\<close> is \<^verbatim>\<open>X.shape[1]\<close>, the
  rows are the samples. Sparse inputs differ in representation only (the conversion from
  CSR to CSC changes no entry). Labels, priors, posteriors, leaf predictions and
  hyperparameters, which do not enter the signed distances, are real numbers.
\<close>

record matrix =
  shape1 :: nat
  rows :: "float list list"

definition shape0 :: "matrix \<Rightarrow> nat" where
  "shape0 X = length (rows X)"

text \<open>
  The attributes of \<^verbatim>\<open>BaseNode\<close> and \<^verbatim>\<open>BaseHyperplaneNode\<close> that the modelled methods
  read or write, and the node with its two exclusively owned children. The attributes
  \<^verbatim>\<open>child_type\<close>, \<^verbatim>\<open>optimizer\<close>, \<^verbatim>\<open>optimization_function\<close> and the two
  \<^verbatim>\<open>log_p_data_post_*\<close> attributes are never read by these methods; the optimizer and
  the model-specific methods are passed along as \<open>hooks\<close> below.
\<close>

record node_attrs =
  partition_prior :: real
  prior :: "real list"
  is_regression :: bool
  level :: nat
  n_dim :: "nat option"
  posterior :: "real list option"
  best_hyperplane_normal :: "float list option"
  best_hyperplane_origin :: "float list option"

datatype node = Node (attrs: node_attrs) (child1: "node option") (child2: "node option")

text \<open>
  The state after \<^verbatim>\<open>BaseHyperplaneNode.__init__\<close>; the prior is an array by its type,
  so the type error of \<^verbatim>\<open>BaseNode.__init__\<close> has no counterpart.
\<close>

definition new_node :: "real \<Rightarrow> real list \<Rightarrow> bool \<Rightarrow> nat \<Rightarrow> node" where
  "new_node pp pr reg lvl =
     Node \<lparr> partition_prior = pp, prior = pr, is_regression = reg, level = lvl,
            n_dim = None, posterior = None,
            best_hyperplane_normal = None, best_hyperplane_origin = None \<rparr> None None"

section \<open>Fittedness, leaves, tree metrics\<close>

text \<open>\<^verbatim>\<open>_ensure_is_fitted(X)\<close>; the argument is \<^verbatim>\<open>X.shape[1]\<close> when \<^verbatim>\<open>X\<close> is given.\<close>

definition ensure_is_fitted :: "node \<Rightarrow> nat option \<Rightarrow> error option" where
  "ensure_is_fitted self Xshape1 =
     (if posterior (attrs self) = None then Some (ValueError Untrained)
      else (case Xshape1 of
              None \<Rightarrow> None
            | Some d \<Rightarrow>
                if Some d \<noteq> n_dim (attrs self)
                then Some (ValueError (BadInputDimensions (n_dim (attrs self)) d))
                else None))"

definition is_leaf :: "node \<Rightarrow> error + bool" where
  "is_leaf self =
     (case ensure_is_fitted self None of
        Some e \<Rightarrow> Inl e
      | None \<Rightarrow> Inr (best_hyperplane_normal (attrs self) = None))"

fun update_depth_and_leaves :: "node \<Rightarrow> nat \<Rightarrow> nat \<Rightarrow> error + (nat \<times> nat)" where
  "update_depth_and_leaves (Node f c1 c2) depth leaves =
     (case is_leaf (Node f c1 c2) of
        Inl e \<Rightarrow> Inl e
      | Inr True \<Rightarrow> Inr (max depth (level f), leaves + 1)
      | Inr False \<Rightarrow>
          (case c1 of
             None \<Rightarrow> Inr (depth, leaves)
           | Some a \<Rightarrow>
               (case update_depth_and_leaves a depth leaves of
                  Inl e \<Rightarrow> Inl e
                | Inr (depth', leaves') \<Rightarrow>
                    (case c2 of
                       None \<Rightarrow> Inl AttributeError
                     | Some b \<Rightarrow> update_depth_and_leaves b depth' leaves'))))"

definition depth_and_leaves :: "node \<Rightarrow> error + (nat \<times> nat)" where
  "depth_and_leaves self = update_depth_and_leaves self 0 0"

section \<open>The model-specific methods and the optimizer\<close>

text \<open>
  What \<^verbatim>\<open>optimizer.solve\<close> leaves on the optimization function: the best hyperplane
  found, or \<^verbatim>\<open>None\<close>.
\<close>

record optimization_function =
  opt_best_hyperplane_normal :: "float list option"
  opt_best_hyperplane_origin :: "float list option"

text \<open>
  The abstract methods of \<^verbatim>\<open>BaseNode\<close> that the modelled code calls, and the optimizer,
  are parameters: \<^verbatim>\<open>_compute_posterior(y, delta)\<close>, \<^verbatim>\<open>_predict_leaf()\<close> and
  \<^verbatim>\<open>_check_target(y)\<close> as functions of the node they are called on, and \<open>solve\<close> for
  the hyperplane that building the optimization function for \<^verbatim>\<open>(X, y)\<close> at a node
  (from \<^verbatim>\<open>_compute_log_p_data_post_no_split\<close> and \<^verbatim>\<open>_compute_log_p_data_post_split\<close>)
  and running the optimizer on it yields. They read the node and change nothing.
\<close>

record hooks =
  compute_posterior :: "node \<Rightarrow> real list \<Rightarrow> real \<Rightarrow> real list"
  predict_leaf :: "node \<Rightarrow> real"
  check_target :: "node \<Rightarrow> real list \<Rightarrow> error option"
  solve :: "node \<Rightarrow> matrix \<Rightarrow> real list \<Rightarrow> optimization_function"

text \<open>
  \<^verbatim>\<open>_check_classification_target(y)\<close>, which a classification node's
  \<^verbatim>\<open>_check_target\<close> calls, on a target that is an array: the assertion
  \<^verbatim>\<open>np.all(np.unique(y) == np.arange(0, n_classes))\<close>, with one class per entry of the
  prior. The distinct labels, sorted, must be \<open>0, \<dots>, n_classes - 1\<close>; the comparison
  broadcasts an array of length one, so the assertion also holds, over no element at
  all, for an empty target with a one-class prior and for a target with a single label
  with an empty prior. The message of a failing assertion is built from \<^verbatim>\<open>y.min()\<close>,
  which raises for an empty array.
\<close>

definition check_classification_target :: "node \<Rightarrow> real list \<Rightarrow> error option" where
  "check_classification_target self y =
     (let n_classes = length (prior (attrs self));
          unique = remdups (sort y)
      in if unique = map real [0..<n_classes] \<or> (unique = [] \<and> n_classes = 1) \<or>
            (length unique = 1 \<and> n_classes = 0)
         then None
         else if y = [] then Some (ValueError ZeroSizeArray)
         else Some AssertionError)"

section \<open>Array operations\<close>

text \<open>
  \<^verbatim>\<open>np.dot\<close> of two one-dimensional arrays, and \<^verbatim>\<open>X @ v\<close>: sums of products, with
  every product in the sum, so that one NaN product makes the sum NaN.
\<close>

definition inner :: "float list \<Rightarrow> float list \<Rightarrow> float" where
  "inner u v = foldr fadd (map2 fmul u v) (Finite 0)"

definition dot :: "float list \<Rightarrow> float list \<Rightarrow> error + float" where
  "dot u v = (if length u = length v then Inr (inner u v) else Inl (ValueError ShapesNotAligned))"

definition matvec :: "matrix \<Rightarrow> float list \<Rightarrow> error + float list" where
  "matvec X v =
     (if shape1 X = length v then Inr (map (\<lambda>r. inner r v) (rows X))
      else Inl (ValueError ShapesNotAligned))"

text \<open>
  \<^verbatim>\<open>X @ normal - np.dot(normal, origin)\<close>, the signed distances of the rows of \<^verbatim>\<open>X\<close>;
  an origin that is \<^verbatim>\<open>None\<close> makes \<^verbatim>\<open>np.dot\<close> fail.
\<close>

definition projections :: "matrix \<Rightarrow> float list \<Rightarrow> float list option \<Rightarrow> error + float list" where
  "projections X normal origin =
     (case matvec X normal of
        Inl e \<Rightarrow> Inl e
      | Inr xs \<Rightarrow>
          (case origin of
             None \<Rightarrow> Inl TypeError
           | Some org \<Rightarrow>
               (case dot normal org of
                  Inl e \<Rightarrow> Inl e
                | Inr c \<Rightarrow> Inr (map (\<lambda>x. fsub x c) xs))))"

text \<open>
  \<^verbatim>\<open>np.where(projections < 0)[0]\<close> and \<^verbatim>\<open>np.where(projections >= 0)[0]\<close>: the index of
  a NaN projection is in neither array.
\<close>

definition where_lt0 :: "float list \<Rightarrow> nat list" where
  "where_lt0 ps = filter (\<lambda>i. flt0 (ps ! i)) [0..<length ps]"

definition where_ge0 :: "float list \<Rightarrow> nat list" where
  "where_ge0 ps = filter (\<lambda>i. fge0 (ps ! i)) [0..<length ps]"

text \<open>\<^verbatim>\<open>a[indices]\<close> for an index array: an index out of range raises.\<close>

definition index_by :: "'a list \<Rightarrow> nat list \<Rightarrow> error + 'a list" where
  "index_by xs idx =
     (if list_all (\<lambda>i. i < length xs) idx then Inr (map ((!) xs) idx) else Inl IndexError)"

definition index_rows :: "matrix \<Rightarrow> nat list \<Rightarrow> error + matrix" where
  "index_rows X idx =
     (case index_by (rows X) idx of
        Inl e \<Rightarrow> Inl e
      | Inr rs \<Rightarrow> Inr (X\<lparr>rows := rs\<rparr>))"

text \<open>
  \<^verbatim>\<open>a[indices] = values\<close> on a float array: the values are stored at the indices in
  order; a single value is broadcast; \<^verbatim>\<open>None\<close> is converted to NaN and broadcast.
\<close>

definition assign_at :: "float list \<Rightarrow> nat list \<Rightarrow> float list option \<Rightarrow> error + float list" where
  "assign_at a idx values =
     (if \<not> list_all (\<lambda>i. i < length a) idx then Inl IndexError
      else (case values of
              None \<Rightarrow> Inr (foldl (\<lambda>b i. b[i := NaN]) a idx)
            | Some vs \<Rightarrow>
                if length vs = length idx then Inr (foldl (\<lambda>b (i, v). b[i := v]) a (zip idx vs))
                else if length vs = 1 then Inr (foldl (\<lambda>b i. b[i := hd vs]) a idx)
                else Inl (ValueError ShapesNotAligned)))"

text \<open>\<^verbatim>\<open>_create_merged_predictions_array\<close> for class predictions: \<^verbatim>\<open>np.zeros(len_X)\<close>.\<close>

definition create_merged_predictions_array :: "matrix \<Rightarrow> float list" where
  "create_merged_predictions_array X = replicate (shape0 X) (Finite 0)"

section \<open>Prediction\<close>

text \<open>
  \<^verbatim>\<open>_compute_child1_and_child2_indices(X, dense)\<close>; without a stored normal the
  product \<^verbatim>\<open>X @ None\<close> fails with the value error of an operand of too few dimensions.
\<close>

definition compute_child1_and_child2_indices :: "node \<Rightarrow> matrix \<Rightarrow> error + (nat list \<times> nat list)" where
  "compute_child1_and_child2_indices self X =
     (case best_hyperplane_normal (attrs self) of
        None \<Rightarrow> Inl (ValueError ShapesNotAligned)
      | Some normal \<Rightarrow>
          (case projections X normal (best_hyperplane_origin (attrs self)) of
             Inl e \<Rightarrow> Inl e
           | Inr ps \<Rightarrow> Inr (where_lt0 ps, where_ge0 ps)))"

text \<open>
  \<^verbatim>\<open>_predict(X, predict_class=True)\<close>, the call \<^verbatim>\<open>predict\<close> makes. The result is the
  array of predictions, or \<^verbatim>\<open>None\<close> when an internal node queried neither child.
\<close>

fun predict_rec :: "hooks \<Rightarrow> node \<Rightarrow> matrix \<Rightarrow> error + float list option" where
  "predict_rec h (Node f c1 c2) X =
     (case is_leaf (Node f c1 c2) of
        Inl e \<Rightarrow> Inl e
      | Inr True \<Rightarrow> Inr (Some (replicate (shape0 X) (Finite (predict_leaf h (Node f c1 c2)))))
      | Inr False \<Rightarrow>
          (case compute_child1_and_child2_indices (Node f c1 c2) X of
             Inl e \<Rightarrow> Inl e
           | Inr (indices1, indices2) \<Rightarrow>
               (case (if length indices1 > 0 then
                        (case index_rows X indices1 of
                           Inl e \<Rightarrow> Inl e
                         | Inr X1 \<Rightarrow>
                             (case c1 of
                                None \<Rightarrow> Inl AttributeError
                              | Some a \<Rightarrow>
                                  (case predict_rec h a X1 of
                                     Inl e \<Rightarrow> Inl e
                                   | Inr predictions1 \<Rightarrow>
                                       (case assign_at (create_merged_predictions_array X)
                                               indices1 predictions1 of
                                          Inl e \<Rightarrow> Inl e
                                        | Inr m \<Rightarrow> Inr (Some m)))))
                      else Inr None) of
                  Inl e \<Rightarrow> Inl e
                | Inr predictions_merged \<Rightarrow>
                    if length indices2 > 0 then
                      (case index_rows X indices2 of
                         Inl e \<Rightarrow> Inl e
                       | Inr X2 \<Rightarrow>
                           (case c2 of
                              None \<Rightarrow> Inl AttributeError
                            | Some b \<Rightarrow>
                                (case predict_rec h b X2 of
                                   Inl e \<Rightarrow> Inl e
                                 | Inr predictions2 \<Rightarrow>
                                     (case assign_at
                                             (case predictions_merged of
                                                None \<Rightarrow> create_merged_predictions_array X
                                              | Some m \<Rightarrow> m)
                                             indices2 predictions2 of
                                        Inl e \<Rightarrow> Inl e
                                      | Inr m \<Rightarrow> Inr (Some m)))))
                    else Inr predictions_merged)))"

text \<open>
  \<^verbatim>\<open>predict(X)\<close> on the normalised input. It assigns to no attribute of the node; the
  node is returned beside the outcome to make that explicit.
\<close>

definition predict :: "hooks \<Rightarrow> node \<Rightarrow> matrix \<Rightarrow> (error + float list) \<times> node" where
  "predict h self X =
     (case ensure_is_fitted self (Some (shape1 X)) of
        Some e \<Rightarrow> (Inl e, self)
      | None \<Rightarrow>
          (case predict_rec h self X of
             Inl e \<Rightarrow> (Inl e, self)
           | Inr None \<Rightarrow> (Inr (create_merged_predictions_array X), self)
           | Inr (Some prediction) \<Rightarrow> (Inr prediction, self)))"

section \<open>Fitting\<close>

text \<open>
  The attribute assignments of \<^verbatim>\<open>_fit\<close>. \<open>child_type\<close> is the constructor call
  \<^verbatim>\<open>self.child_type(self.partition_prior, prior, self.optimizer, self.level + 1)\<close>: a
  fresh node of the same kind one level down.
\<close>

definition set_posterior :: "node \<Rightarrow> real list \<Rightarrow> node" where
  "set_posterior self p = Node ((attrs self)\<lparr>posterior := Some p\<rparr>) (child1 self) (child2 self)"

definition set_n_dim :: "node \<Rightarrow> nat \<Rightarrow> node" where
  "set_n_dim self d = Node ((attrs self)\<lparr>n_dim := Some d\<rparr>) (child1 self) (child2 self)"

definition store_split :: "node \<Rightarrow> float list option \<Rightarrow> float list option \<Rightarrow> node" where
  "store_split self normal origin =
     Node ((attrs self)\<lparr>best_hyperplane_normal := normal, best_hyperplane_origin := origin\<rparr>)
       (child1 self) (child2 self)"

definition child_type :: "node \<Rightarrow> real list \<Rightarrow> node" where
  "child_type self child_prior =
     new_node (partition_prior (attrs self)) child_prior (is_regression (attrs self))
       (level (attrs self) + 1)"

definition finish_fit :: "hooks \<Rightarrow> node \<Rightarrow> matrix \<Rightarrow> real list \<Rightarrow> node" where
  "finish_fit h self X y =
     (let self' = set_n_dim self (shape1 X)
      in set_posterior self' (compute_posterior h self' y 1))"

text \<open>
  \<^verbatim>\<open>_fit(X, y, delta, verbose, feature_names)\<close>, without the progress output. The
  recursion is on the two strictly smaller parts of the data.
\<close>

function fit_rec :: "hooks \<Rightarrow> node \<Rightarrow> matrix \<Rightarrow> real list \<Rightarrow> real \<Rightarrow> error + node" where
  "fit_rec h self X y delta =
     (let optimization_function = solve h self X y in
      case opt_best_hyperplane_normal optimization_function of
        None \<Rightarrow> Inr (finish_fit h self X y)
      | Some normal \<Rightarrow>
          (case projections X normal (opt_best_hyperplane_origin optimization_function) of
             Inl e \<Rightarrow> Inl e
           | Inr ps \<Rightarrow>
               if length (where_lt0 ps) > 0 \<and> length (where_ge0 ps) > 0 then
                 (case index_rows X (where_lt0 ps) of Inl e \<Rightarrow> Inl e | Inr X1 \<Rightarrow>
                  case index_rows X (where_ge0 ps) of Inl e \<Rightarrow> Inl e | Inr X2 \<Rightarrow>
                  case index_by y (where_lt0 ps) of Inl e \<Rightarrow> Inl e | Inr y1 \<Rightarrow>
                  case index_by y (where_ge0 ps) of Inl e \<Rightarrow> Inl e | Inr y2 \<Rightarrow>
                    (let prior_child1 = compute_posterior h self y1 0;
                         prior_child2 = compute_posterior h self y2 0;
                         self1 = store_split self (Some normal)
                                   (opt_best_hyperplane_origin optimization_function);
                         self2 = Node (attrs self1) (Some (child_type self1 prior_child1)) (child2 self1);
                         self3 = Node (attrs self2) (child1 self2) (Some (child_type self2 prior_child2))
                     in case (if shape0 X1 > 1
                              then fit_rec h (child_type self1 prior_child1) X1 y1 delta
                              else Inr (set_posterior (child_type self1 prior_child1)
                                          (compute_posterior h self3 y1 1))) of
                          Inl e \<Rightarrow> Inl e
                        | Inr c1 \<Rightarrow>
                            (let self4 = Node (attrs self3) (Some c1) (child2 self3)
                             in case (if shape0 X2 > 1
                                      then fit_rec h (child_type self2 prior_child2) X2 y2 delta
                                      else Inr (set_posterior (child_type self2 prior_child2)
                                                  (compute_posterior h self4 y2 1))) of
                                  Inl e \<Rightarrow> Inl e
                                | Inr c2 \<Rightarrow>
                                    Inr (finish_fit h (Node (attrs self4) (child1 self4) (Some c2)) X y))))
               else Inr (finish_fit h self X y)))"
  by pat_completeness auto

text \<open>
  No value is both negative and non-negative, so both parts of a split with two non-empty
  sides are strictly smaller.
\<close>

lemma flt0_not_fge0: "flt0 x \<Longrightarrow> \<not> fge0 x"
  by (cases x) simp_all

lemma length_filter_exclusive:
  "(\<And>x. P x \<Longrightarrow> \<not> Q x) \<Longrightarrow> length (filter P xs) + length (filter Q xs) \<le> length xs"
  by (induction xs) auto

lemma length_where: "length (where_lt0 ps) + length (where_ge0 ps) \<le> length ps"
  unfolding where_lt0_def where_ge0_def
  using length_filter_exclusive[of "\<lambda>i. flt0 (ps ! i)" "\<lambda>i. fge0 (ps ! i)" "[0..<length ps]"]
  by (simp add: flt0_not_fge0)

lemma projections_length: "projections X n og = Inr ps \<Longrightarrow> length ps = shape0 X"
  by (auto simp: projections_def matvec_def dot_def shape0_def split: sum.splits option.splits if_splits)

lemma index_rows_shape0: "index_rows X idx = Inr X1 \<Longrightarrow> shape0 X1 = length idx"
  by (auto simp: index_rows_def index_by_def shape0_def split: sum.splits if_splits)

lemma where_nonempty_less:
  assumes "where_lt0 ps \<noteq> []" "where_ge0 ps \<noteq> []"
  shows "length (where_lt0 ps) < length ps" "length (where_ge0 ps) < length ps"
proof -
  have "0 < length (where_lt0 ps)" "0 < length (where_ge0 ps)"
    using assms by simp_all
  then show "length (where_lt0 ps) < length ps" "length (where_ge0 ps) < length ps"
    using length_where[of ps] by linarith+
qed

lemma fit_rec_smaller1:
  "projections X n og = Inr ps \<Longrightarrow> where_lt0 ps \<noteq> [] \<Longrightarrow> where_ge0 ps \<noteq> [] \<Longrightarrow>
   index_rows X (where_lt0 ps) = Inr X1 \<Longrightarrow> shape0 X1 < shape0 X"
  using where_nonempty_less(1)[of ps] projections_length[of X n og ps]
    index_rows_shape0[of X "where_lt0 ps" X1] by simp

lemma fit_rec_smaller2:
  "projections X n og = Inr ps \<Longrightarrow> where_lt0 ps \<noteq> [] \<Longrightarrow> where_ge0 ps \<noteq> [] \<Longrightarrow>
   index_rows X (where_ge0 ps) = Inr X2 \<Longrightarrow> shape0 X2 < shape0 X"
  using where_nonempty_less(2)[of ps] projections_length[of X n og ps]
    index_rows_shape0[of X "where_ge0 ps" X2] by simp

termination fit_rec
  apply (relation "measure (\<lambda>(h, self, X, y, delta). shape0 X)")
    apply simp
   apply (simp, elim conjE, erule (3) fit_rec_smaller1)
  apply (simp, elim conjE, erule (3) fit_rec_smaller2)
  done

section \<open>Pruning\<close>

text \<open>
  \<^verbatim>\<open>self.child1.is_leaf() and self.child2.is_leaf()\<close>, evaluated left to right, and
  the assignments that collapse a node into a leaf.
\<close>

definition children_are_leaves :: "node \<Rightarrow> error + bool" where
  "children_are_leaves self =
     (case child1 self of
        None \<Rightarrow> Inl AttributeError
      | Some c1 \<Rightarrow>
          (case is_leaf c1 of
             Inl e \<Rightarrow> Inl e
           | Inr False \<Rightarrow> Inr False
           | Inr True \<Rightarrow>
               (case child2 self of
                  None \<Rightarrow> Inl AttributeError
                | Some c2 \<Rightarrow> is_leaf c2)))"

definition collapse :: "node \<Rightarrow> node" where
  "collapse self =
     Node ((attrs self)\<lparr>best_hyperplane_normal := None, best_hyperplane_origin := None\<rparr>)
       None None"

text \<open>The number of nodes of a tree; it decreases with every collapse.\<close>

fun nodes :: "node \<Rightarrow> nat" where
  "nodes (Node f c1 c2) =
     1 + (case c1 of None \<Rightarrow> 0 | Some a \<Rightarrow> nodes a) + (case c2 of None \<Rightarrow> 0 | Some b \<Rightarrow> nodes b)"

text \<open>
  \<^verbatim>\<open>_prune()\<close>: one pass over the node, then again while the pass changed
  \<^verbatim>\<open>depth_and_leaves()\<close>.
\<close>

function prune_rec :: "hooks \<Rightarrow> node \<Rightarrow> error + node" where
  "prune_rec h self =
     (case depth_and_leaves self of
        Inl e \<Rightarrow> Inl e
      | Inr depth_and_leaves_start \<Rightarrow>
          (case is_leaf self of
             Inl e \<Rightarrow> Inl e
           | Inr True \<Rightarrow> Inr self
           | Inr False \<Rightarrow>
               (case (case children_are_leaves self of
                        Inl e \<Rightarrow> Inl e
                      | Inr True \<Rightarrow>
                          (case child1 self of
                             None \<Rightarrow> Inl AttributeError
                           | Some c1 \<Rightarrow>
                               (case child2 self of
                                  None \<Rightarrow> Inl AttributeError
                                | Some c2 \<Rightarrow>
                                    if predict_leaf h c1 = predict_leaf h c2
                                    then Inr (collapse self) else Inr self))
                      | Inr False \<Rightarrow>
                          (case child1 self of
                             None \<Rightarrow> Inl AttributeError
                           | Some c1 \<Rightarrow>
                               (case prune_rec h c1 of
                                  Inl e \<Rightarrow> Inl e
                                | Inr c1' \<Rightarrow>
                                    (case child2 self of
                                       None \<Rightarrow> Inl AttributeError
                                     | Some c2 \<Rightarrow>
                                         (case prune_rec h c2 of
                                            Inl e \<Rightarrow> Inl e
                                          | Inr c2' \<Rightarrow>
                                              Inr (Node (attrs self) (Some c1') (Some c2'))))))) of
                  Inl e \<Rightarrow> Inl e
                | Inr self' \<Rightarrow>
                    (case depth_and_leaves self' of
                       Inl e \<Rightarrow> Inl e
                     | Inr depth_and_leaves_now \<Rightarrow>
                         if depth_and_leaves_start \<noteq> depth_and_leaves_now
                         then prune_rec h self' else Inr self'))))"
  by pat_completeness auto

text \<open>
  A run of \<^verbatim>\<open>_prune\<close> returns the tree it got or one with fewer nodes (\<open>shrinks\<close>); so
  the run that follows a change of \<^verbatim>\<open>depth_and_leaves()\<close> is on a smaller tree.
\<close>

lemma nodes_sel:
  "nodes self = 1 + (case child1 self of None \<Rightarrow> 0 | Some a \<Rightarrow> nodes a)
                  + (case child2 self of None \<Rightarrow> 0 | Some b \<Rightarrow> nodes b)"
  by (cases self) simp

lemma node_rebuild: "child1 self = Some a \<Longrightarrow> child2 self = Some b \<Longrightarrow> Node (attrs self) (Some a) (Some b) = self"
  by (cases self) simp

lemma nodes_collapse: "nodes (collapse self) = 1"
  by (simp add: collapse_def)

lemma nodes_children:
  "child1 self = Some a \<Longrightarrow> child2 self = Some b \<Longrightarrow> nodes self = 1 + nodes a + nodes b"
  by (cases self) simp

lemma nodes_pos: "0 < nodes n"
  by (cases n) simp

definition shrinks :: "node \<Rightarrow> node \<Rightarrow> bool" where
  "shrinks n n' \<longleftrightarrow> nodes n' \<le> nodes n \<and> (nodes n' = nodes n \<longrightarrow> n' = n)"

lemma prune_pass_shrinks:
  assumes pass:
    "(case children_are_leaves self of
        Inl e \<Rightarrow> Inl e
      | Inr True \<Rightarrow>
          (case child1 self of
             None \<Rightarrow> Inl AttributeError
           | Some c1 \<Rightarrow>
               (case child2 self of
                  None \<Rightarrow> Inl AttributeError
                | Some c2 \<Rightarrow>
                    if predict_leaf h c1 = predict_leaf h c2 then Inr (collapse self)
                    else Inr self))
      | Inr False \<Rightarrow>
          (case child1 self of
             None \<Rightarrow> Inl AttributeError
           | Some c1 \<Rightarrow>
               (case prune_rec h c1 of
                  Inl e \<Rightarrow> Inl e
                | Inr c1' \<Rightarrow>
                    (case child2 self of
                       None \<Rightarrow> Inl AttributeError
                     | Some c2 \<Rightarrow>
                         (case prune_rec h c2 of
                            Inl e \<Rightarrow> Inl e
                          | Inr c2' \<Rightarrow> Inr (Node (attrs self) (Some c1') (Some c2'))))))) = Inr s'"
    and R1: "\<And>c1 c1'. children_are_leaves self = Inr False \<Longrightarrow> child1 self = Some c1 \<Longrightarrow>
               prune_rec h c1 = Inr c1' \<Longrightarrow> shrinks c1 c1'"
    and R2: "\<And>c1 c1' c2 c2'. children_are_leaves self = Inr False \<Longrightarrow> child1 self = Some c1 \<Longrightarrow>
               prune_rec h c1 = Inr c1' \<Longrightarrow> child2 self = Some c2 \<Longrightarrow>
               prune_rec h c2 = Inr c2' \<Longrightarrow> shrinks c2 c2'"
  shows "shrinks self s'"
proof (cases "children_are_leaves self")
  case (Inl e)
  with pass show ?thesis by simp
next
  case (Inr b)
  show ?thesis
  proof (cases b)
    case True
    with pass Inr obtain c1 c2 where c: "child1 self = Some c1" "child2 self = Some c2"
      by (auto split: option.splits)
    with pass Inr True
    have "s' = (if predict_leaf h c1 = predict_leaf h c2 then collapse self else self)"
      by (simp split: if_splits)
    then show ?thesis
      using nodes_children[OF c] nodes_pos[of c1] by (simp add: shrinks_def nodes_collapse)
  next
    case False
    with Inr have b: "children_are_leaves self = Inr False" by simp
    from pass b obtain c1 c2 c1' c2' where c: "child1 self = Some c1" "child2 self = Some c2"
      and p: "prune_rec h c1 = Inr c1'" "prune_rec h c2 = Inr c2'"
      by (auto split: option.splits sum.splits)
    with pass b have s': "s' = Node (attrs self) (Some c1') (Some c2')"
      by simp
    from R1[OF b c(1) p(1)] R2[OF b c(1) p(1) c(2) p(2)] show ?thesis
      using nodes_children[OF c] node_rebuild[OF c] by (auto simp: s' shrinks_def)
  qed
qed

lemma prune_tail_shrinks:
  assumes Q: "shrinks self s'"
    and tail: "(case depth_and_leaves s' of Inl e \<Rightarrow> Inl e
                | Inr dl \<Rightarrow> if start \<noteq> dl then prune_rec h s' else Inr s') = Inr n'"
    and st: "depth_and_leaves self = Inr start"
    and IH: "\<And>dl n'. depth_and_leaves s' = Inr dl \<Longrightarrow> start \<noteq> dl \<Longrightarrow> prune_rec h s' = Inr n'
               \<Longrightarrow> shrinks s' n'"
  shows "shrinks self n'"
proof -
  from tail obtain dl where dl: "depth_and_leaves s' = Inr dl"
    by (auto split: sum.splits)
  show ?thesis
  proof (cases "start = dl")
    case True
    with tail dl have "n' = s'" by simp
    with Q show ?thesis by simp
  next
    case False
    with tail dl have "prune_rec h s' = Inr n'" by simp
    from IH[OF dl False this] have *: "shrinks s' n'" .
    have "s' \<noteq> self" using False dl st by auto
    with Q have "nodes s' < nodes self" by (auto simp: shrinks_def)
    with * show ?thesis by (auto simp: shrinks_def)
  qed
qed

lemma prune_rec_shrinks_dom:
  assumes "prune_rec_dom (h, n)" "prune_rec h n = Inr n'"
  shows "shrinks n n'"
  using assms
proof (induction h n arbitrary: n' rule: prune_rec.pinduct)
  case (1 h self)
  note eq = "1.prems"[unfolded prune_rec.psimps[OF "1.hyps"]]
  from eq obtain start where st: "depth_and_leaves self = Inr start"
    by (auto split: sum.splits)
  show ?case
  proof (cases "is_leaf self = Inr True")
    case True
    with eq st show ?thesis by (simp add: shrinks_def)
  next
    case False
    with eq st have lf: "is_leaf self = Inr False"
      by (auto split: sum.splits bool.splits)
    from eq st lf obtain s' where pass: "(case children_are_leaves self of
        Inl e \<Rightarrow> Inl e
      | Inr True \<Rightarrow>
          (case child1 self of
             None \<Rightarrow> Inl AttributeError
           | Some c1 \<Rightarrow>
               (case child2 self of
                  None \<Rightarrow> Inl AttributeError
                | Some c2 \<Rightarrow>
                    if predict_leaf h c1 = predict_leaf h c2 then Inr (collapse self)
                    else Inr self))
      | Inr False \<Rightarrow>
          (case child1 self of
             None \<Rightarrow> Inl AttributeError
           | Some c1 \<Rightarrow>
               (case prune_rec h c1 of
                  Inl e \<Rightarrow> Inl e
                | Inr c1' \<Rightarrow>
                    (case child2 self of
                       None \<Rightarrow> Inl AttributeError
                     | Some c2 \<Rightarrow>
                         (case prune_rec h c2 of
                            Inl e \<Rightarrow> Inl e
                          | Inr c2' \<Rightarrow> Inr (Node (attrs self) (Some c1') (Some c2'))))))) = Inr s'"
      by (simp split: sum.splits)
    have Q: "shrinks self s'"
      by (rule prune_pass_shrinks[OF pass])
         (use "1.IH"(1)[OF st lf refl _ refl] "1.IH"(2)[OF st lf refl _ refl] in blast)+
    have tail: "(case depth_and_leaves s' of Inl e \<Rightarrow> Inl e
                | Inr dl \<Rightarrow> if start \<noteq> dl then prune_rec h s' else Inr s') = Inr n'"
      using eq st lf by (simp add: pass)
    show ?thesis
      by (rule prune_tail_shrinks[OF Q tail st]) (use "1.IH"(3)[OF st lf refl pass] in blast)
  qed
qed

termination prune_rec
proof (relation "measure (\<lambda>(h, self). nodes self)", goal_cases)
  case 1
  show ?case by simp
next
  case (2 h self b ba bb c1)
  then show ?case using nodes_sel[of self] nodes_pos by (simp split: option.splits)
next
  case (3 h self b ba bb c1 bc c2)
  then show ?case using nodes_sel[of self] nodes_pos by (simp split: option.splits)
next
  case (4 h self b ba s' dl)
  have "shrinks self s'"
    by (rule prune_pass_shrinks[OF 4(4)])
       (use 4 prune_rec_shrinks_dom in blast)+
  moreover have "s' \<noteq> self" using 4 by auto
  ultimately show ?case by (auto simp: shrinks_def)
qed

declare fit_rec.simps [simp del]
declare prune_rec.simps [simp del]

section \<open>The public fit\<close>

text \<open>
  \<^verbatim>\<open>fit(X, y, delta, prune)\<close> on normalised input: target validation at the root, the
  range check of \<^verbatim>\<open>delta\<close>, the recursive fit, and pruning on request.
\<close>

definition fit :: "hooks \<Rightarrow> node \<Rightarrow> matrix \<Rightarrow> real list \<Rightarrow> real \<Rightarrow> bool \<Rightarrow> error + node" where
  "fit h self X y delta prune =
     (case (if level (attrs self) = 0 then check_target h self y else None) of
        Some e \<Rightarrow> Inl e
      | None \<Rightarrow>
          if delta < 0 \<or> delta > 1 then Inl (ValueError DeltaRange)
          else (case fit_rec h self X y delta of
                  Inl e \<Rightarrow> Inl e
                | Inr self' \<Rightarrow> if prune then prune_rec h self' else Inr self'))"

section \<open>Invariants and reference functions\<close>

text \<open>
  The leaf invariant: a fitted node either stores no split and has no children, or stores
  a normal and an origin and has both children; and so for its children.
\<close>

definition split_consistent :: "node \<Rightarrow> bool" where
  "split_consistent self \<longleftrightarrow>
     ((best_hyperplane_normal (attrs self) = None) = (best_hyperplane_origin (attrs self) = None)) \<and>
     ((best_hyperplane_normal (attrs self) = None) = (child1 self = None)) \<and>
     ((child1 self = None) = (child2 self = None))"

fun leaf_inv :: "node \<Rightarrow> bool" where
  "leaf_inv (Node f c1 c2) =
     (posterior f \<noteq> None \<and> split_consistent (Node f c1 c2) \<and>
      (case c1 of None \<Rightarrow> True | Some a \<Rightarrow> leaf_inv a) \<and>
      (case c2 of None \<Rightarrow> True | Some b \<Rightarrow> leaf_inv b))"

text \<open>
  What \<^verbatim>\<open>_fit\<close> needs of the node it is called on: a consistent split state with
  fitted children (a fresh node has neither). \<open>dims_ok d\<close> says that every stored normal and
  origin has \<open>d\<close> components.
\<close>

definition children_inv :: "node \<Rightarrow> bool" where
  "children_inv self \<longleftrightarrow>
     split_consistent self \<and>
     (case child1 self of None \<Rightarrow> True | Some a \<Rightarrow> leaf_inv a) \<and>
     (case child2 self of None \<Rightarrow> True | Some b \<Rightarrow> leaf_inv b)"

fun dims_ok :: "nat \<Rightarrow> node \<Rightarrow> bool" where
  "dims_ok d (Node f c1 c2) =
     ((case best_hyperplane_normal f of None \<Rightarrow> True | Some n \<Rightarrow> length n = d) \<and>
      (case best_hyperplane_origin f of None \<Rightarrow> True | Some og \<Rightarrow> length og = d) \<and>
      (case c1 of None \<Rightarrow> True | Some a \<Rightarrow> dims_ok d a) \<and>
      (case c2 of None \<Rightarrow> True | Some b \<Rightarrow> dims_ok d b))"

text \<open>The levels of the leaves reachable from a node, left to right.\<close>

fun leaf_levels :: "node \<Rightarrow> nat list" where
  "leaf_levels (Node f c1 c2) =
     (case c1 of
        None \<Rightarrow> [level f]
      | Some a \<Rightarrow> (case c2 of None \<Rightarrow> [level f] | Some b \<Rightarrow> leaf_levels a @ leaf_levels b))"

text \<open>
  The signed distance of one row to a hyperplane, \<^verbatim>\<open>row . normal - normal . origin\<close>.
\<close>

definition signed_distance :: "float list \<Rightarrow> float list \<Rightarrow> float list \<Rightarrow> float" where
  "signed_distance row normal origin = fsub (inner row normal) (inner normal origin)"

text \<open>
  The leaf a single row is routed to: down child1 on negative signed distance, down
  child2 on non-negative signed distance, and to no leaf when the distance is NaN.
\<close>

fun leaf_for :: "node \<Rightarrow> float list \<Rightarrow> node option" where
  "leaf_for (Node f c1 c2) row =
     (case best_hyperplane_normal f of
        None \<Rightarrow> Some (Node f c1 c2)
      | Some normal \<Rightarrow>
          (case best_hyperplane_origin f of
             None \<Rightarrow> Some (Node f c1 c2)
           | Some origin \<Rightarrow>
               if flt0 (signed_distance row normal origin)
               then (case c1 of None \<Rightarrow> Some (Node f c1 c2) | Some a \<Rightarrow> leaf_for a row)
               else if fge0 (signed_distance row normal origin)
               then (case c2 of None \<Rightarrow> Some (Node f c1 c2) | Some b \<Rightarrow> leaf_for b row)
               else None))"

text \<open>
  What \<^verbatim>\<open>predict\<close> has for a row in its result: the prediction of the leaf the row is
  routed to, and for a row that is routed to no leaf the zero of the initial array or the
  NaN that is stored for a child without a result.
\<close>

definition routed_entry :: "hooks \<Rightarrow> node \<Rightarrow> float list \<Rightarrow> float \<Rightarrow> bool" where
  "routed_entry h t row v =
     (case leaf_for t row of
        Some l \<Rightarrow> v = Finite (predict_leaf h l)
      | None \<Rightarrow> v = Finite 0 \<or> v = NaN)"

text \<open>The leaves reachable from a node, left to right.\<close>

fun leaves :: "node \<Rightarrow> node list" where
  "leaves (Node f c1 c2) =
     (case c1 of
        None \<Rightarrow> [Node f c1 c2]
      | Some a \<Rightarrow> (case c2 of None \<Rightarrow> [Node f c1 c2] | Some b \<Rightarrow> leaves a @ leaves b))"

text \<open>
  A value that is a number, and a tree all of whose stored hyperplanes have numbers for
  their components.
\<close>

fun is_number :: "float \<Rightarrow> bool" where
  "is_number (Finite a) = True"
| "is_number PInf = False"
| "is_number MInf = False"
| "is_number NaN = False"

fun numeric_planes :: "node \<Rightarrow> bool" where
  "numeric_planes (Node f c1 c2) =
     ((case best_hyperplane_normal f of None \<Rightarrow> True | Some n \<Rightarrow> list_all is_number n) \<and>
      (case best_hyperplane_origin f of None \<Rightarrow> True | Some og \<Rightarrow> list_all is_number og) \<and>
      (case c1 of None \<Rightarrow> True | Some a \<Rightarrow> numeric_planes a) \<and>
      (case c2 of None \<Rightarrow> True | Some b \<Rightarrow> numeric_planes b))"

text \<open>
  The node after \<^verbatim>\<open>_fit\<close> has stored the split and created both children (lines 79 to
  83), and what \<^verbatim>\<open>_fit\<close> does with a child and its part of the data (lines 85 to 93).
\<close>

definition with_children :: "hooks \<Rightarrow> node \<Rightarrow> float list \<Rightarrow> float list option \<Rightarrow> real list \<Rightarrow> real list \<Rightarrow> node" where
  "with_children h self normal origin y1 y2 =
     (let self1 = store_split self (Some normal) origin
      in Node (attrs self1)
           (Some (child_type self1 (compute_posterior h self y1 0)))
           (Some (child_type self1 (compute_posterior h self y2 0))))"

definition train_child :: "hooks \<Rightarrow> node \<Rightarrow> node \<Rightarrow> matrix \<Rightarrow> real list \<Rightarrow> real \<Rightarrow> error + node" where
  "train_child h parent child Xc yc delta =
     (if shape0 Xc > 1 then fit_rec h child Xc yc delta
      else Inr (set_posterior child (compute_posterior h parent yc 1)))"

text \<open>
  Pruning as the specification words it: prune both children, then collapse the node if
  both are leaves that predict the same.
\<close>

fun bottom_up_prune :: "hooks \<Rightarrow> node \<Rightarrow> node" where
  "bottom_up_prune h (Node f c1 c2) =
     (case c1 of
        None \<Rightarrow> Node f c1 c2
      | Some a \<Rightarrow>
          (case c2 of
             None \<Rightarrow> Node f c1 c2
           | Some b \<Rightarrow>
               (let a' = bottom_up_prune h a; b' = bottom_up_prune h b
                in if child1 a' = None \<and> child1 b' = None \<and> predict_leaf h a' = predict_leaf h b'
                   then collapse (Node f (Some a') (Some b'))
                   else Node f (Some a') (Some b'))))"

text \<open>
  At every node that bottom-up pruning collapses, the prediction of the node as a leaf is
  the common prediction of its two children.
\<close>

fun collapses_agree :: "hooks \<Rightarrow> node \<Rightarrow> bool" where
  "collapses_agree h (Node f c1 c2) =
     (case c1 of
        None \<Rightarrow> True
      | Some a \<Rightarrow>
          (case c2 of
             None \<Rightarrow> True
           | Some b \<Rightarrow>
               collapses_agree h a \<and> collapses_agree h b \<and>
               (let a' = bottom_up_prune h a; b' = bottom_up_prune h b
                in child1 a' = None \<and> child1 b' = None \<and> predict_leaf h a' = predict_leaf h b' \<longrightarrow>
                   predict_leaf h (collapse (Node f (Some a') (Some b'))) = predict_leaf h a')))"

section \<open>Worked examples\<close>

text \<open>
  A two-class model with a Dirichlet prior: the posterior adds \<open>delta\<close> times the class
  counts to the prior, a leaf predicts the more probable class (the first on a tie), the
  target check is that of classification. The optimizer splits the root at \<open>x = 1/2\<close> and
  finds nothing below.
\<close>

definition ex_hooks :: hooks where
  "ex_hooks =
     \<lparr> compute_posterior = (\<lambda>self y delta.
          [prior (attrs self) ! 0 + delta * real (length (filter (\<lambda>v. v = 0) y)),
           prior (attrs self) ! 1 + delta * real (length (filter (\<lambda>v. v = 1) y))]),
       predict_leaf = (\<lambda>self.
          case posterior (attrs self) of
            None \<Rightarrow> 0
          | Some p \<Rightarrow> if p ! 0 < p ! 1 then 1 else 0),
       check_target = check_classification_target,
       solve = (\<lambda>self X y.
          if level (attrs self) = 0
          then \<lparr> opt_best_hyperplane_normal = Some [Finite 1], opt_best_hyperplane_origin = Some [Finite (1/2)] \<rparr>
          else \<lparr> opt_best_hyperplane_normal = None, opt_best_hyperplane_origin = None \<rparr>) \<rparr>"

definition ex_root :: node where
  "ex_root = new_node (9/10) [1, 1] False 0"

definition ex_X :: matrix where
  "ex_X = \<lparr> shape1 = 1, rows = [[Finite 0], [Finite 1], [Finite 2]] \<rparr>"

definition ex_y :: "real list" where
  "ex_y = [0, 1, 1]"

definition ex_leaf1 :: node where
  "ex_leaf1 = Node \<lparr>partition_prior = 9 / 10, prior = [1, 1], is_regression = False,
              level = 1, n_dim = None, posterior = Some [2, 1],
              best_hyperplane_normal = None, best_hyperplane_origin = None\<rparr> None None"

definition ex_leaf2 :: node where
  "ex_leaf2 = Node \<lparr>partition_prior = 9 / 10, prior = [1, 1], is_regression = False,
              level = 1, n_dim = Some 1, posterior = Some [1, 3],
              best_hyperplane_normal = None, best_hyperplane_origin = None\<rparr> None None"

definition ex_tree :: node where
  "ex_tree = Node \<lparr>partition_prior = 9 / 10, prior = [1, 1], is_regression = False,
          level = 0, n_dim = Some 1, posterior = Some [2, 3],
          best_hyperplane_normal = Some [Finite 1],
          best_hyperplane_origin = Some [Finite (1 / 2)]\<rparr> (Some ex_leaf1) (Some ex_leaf2)"

text \<open>An optimizer whose hyperplane has all the data in front of it.\<close>

definition ex_hooks_one_sided :: hooks where
  "ex_hooks_one_sided =
     ex_hooks\<lparr> solve := (\<lambda>self X y.
        \<lparr> opt_best_hyperplane_normal = Some [Finite 1], opt_best_hyperplane_origin = Some [Finite (- 1)] \<rparr>) \<rparr>"

text \<open>Two samples, one on each side of the root split, and the tree fitted to them.\<close>

definition ex_X2 :: matrix where
  "ex_X2 = \<lparr> shape1 = 1, rows = [[Finite 0], [Finite 1]] \<rparr>"

definition ex_y2 :: "real list" where
  "ex_y2 = [0, 1]"

definition ex_tree2 :: node where
  "ex_tree2 =
     Node \<lparr>partition_prior = 9 / 10, prior = [1, 1], is_regression = False,
          level = 0, n_dim = Some 1, posterior = Some [2, 2],
          best_hyperplane_normal = Some [Finite 1], best_hyperplane_origin = Some [Finite (1 / 2)]\<rparr>
       (Some (Node \<lparr>partition_prior = 9 / 10, prior = [1, 1], is_regression = False,
                level = 1, n_dim = None, posterior = Some [2, 1],
                best_hyperplane_normal = None, best_hyperplane_origin = None\<rparr> None None))
       (Some (Node \<lparr>partition_prior = 9 / 10, prior = [1, 1], is_regression = False,
                level = 1, n_dim = None, posterior = Some [1, 2],
                best_hyperplane_normal = None, best_hyperplane_origin = None\<rparr> None None))"

text \<open>
  Three samples, the second with NaN for its feature, and the tree fitted to them with
  the labels \<open>ex_y\<close>: the second sample counts for the root and for neither child.
\<close>

definition ex_X_nan :: matrix where
  "ex_X_nan = \<lparr> shape1 = 1, rows = [[Finite 0], [NaN], [Finite 2]] \<rparr>"

definition ex_tree_nan :: node where
  "ex_tree_nan =
     Node \<lparr>partition_prior = 9 / 10, prior = [1, 1], is_regression = False,
          level = 0, n_dim = Some 1, posterior = Some [2, 3],
          best_hyperplane_normal = Some [Finite 1], best_hyperplane_origin = Some [Finite (1 / 2)]\<rparr>
       (Some (Node \<lparr>partition_prior = 9 / 10, prior = [1, 1], is_regression = False,
                level = 1, n_dim = None, posterior = Some [2, 1],
                best_hyperplane_normal = None, best_hyperplane_origin = None\<rparr> None None))
       (Some (Node \<lparr>partition_prior = 9 / 10, prior = [1, 1], is_regression = False,
                level = 1, n_dim = None, posterior = Some [1, 2],
                best_hyperplane_normal = None, best_hyperplane_origin = None\<rparr> None None))"

text \<open>
  A tree of depth two over two features, the root splitting on the first and its front
  child on the second, and two inputs with an infinite first feature: the row is in front
  of the root, and its distance at the front child, with the product of infinity and
  zero in it, is NaN.
\<close>

definition ex_leaf_at :: "nat \<Rightarrow> real list \<Rightarrow> node" where
  "ex_leaf_at l p =
     Node \<lparr>partition_prior = 9 / 10, prior = [1, 1], is_regression = False,
          level = l, n_dim = None, posterior = Some p,
          best_hyperplane_normal = None, best_hyperplane_origin = None\<rparr> None None"

definition ex_tree_deep :: node where
  "ex_tree_deep =
     Node \<lparr>partition_prior = 9 / 10, prior = [1, 1], is_regression = False,
          level = 0, n_dim = Some 2, posterior = Some [2, 4],
          best_hyperplane_normal = Some [Finite 1, Finite 0],
          best_hyperplane_origin = Some [Finite 0, Finite 0]\<rparr>
       (Some (ex_leaf_at 1 [1, 2]))
       (Some (Node \<lparr>partition_prior = 9 / 10, prior = [1, 1], is_regression = False,
                level = 1, n_dim = Some 2, posterior = Some [2, 3],
                best_hyperplane_normal = Some [Finite 0, Finite 1],
                best_hyperplane_origin = Some [Finite 0, Finite 0]\<rparr>
              (Some (ex_leaf_at 2 [1, 2])) (Some (ex_leaf_at 2 [1, 3]))))"

definition ex_X_inf :: matrix where
  "ex_X_inf = \<lparr> shape1 = 2, rows = [[PInf, Finite 0]] \<rparr>"

definition ex_X_inf2 :: matrix where
  "ex_X_inf2 = \<lparr> shape1 = 2, rows = [[PInf, Finite 0], [Finite 1, Finite 1]] \<rparr>"

text \<open>An input with two columns.\<close>

definition ex_X_wide :: matrix where
  "ex_X_wide = \<lparr> shape1 = 2, rows = [[Finite 0, Finite 0], [Finite 1, Finite 1]] \<rparr>"

text \<open>
  Four samples, one left and three right of the root split. With the prior \<open>[1, 1]\<close>
  both children and the root predict class 1, and pruning collapses the root. With the
  prior \<open>[5/2, 1]\<close> both children predict class 0 and the root, as a leaf, class 1.
\<close>

definition ex_X4 :: matrix where
  "ex_X4 = \<lparr> shape1 = 1, rows = [[Finite 0], [Finite 1], [Finite 2], [Finite 3]] \<rparr>"

definition ex_y4 :: "real list" where
  "ex_y4 = [1, 1, 1, 0]"

definition ex_tree_same :: node where
  "ex_tree_same =
     Node \<lparr>partition_prior = 9 / 10, prior = [1, 1], is_regression = False,
          level = 0, n_dim = Some 1, posterior = Some [2, 4],
          best_hyperplane_normal = Some [Finite 1], best_hyperplane_origin = Some [Finite (1 / 2)]\<rparr>
       (Some (Node \<lparr>partition_prior = 9 / 10, prior = [1, 1], is_regression = False,
                level = 1, n_dim = None, posterior = Some [1, 2],
                best_hyperplane_normal = None, best_hyperplane_origin = None\<rparr> None None))
       (Some (Node \<lparr>partition_prior = 9 / 10, prior = [1, 1], is_regression = False,
                level = 1, n_dim = Some 1, posterior = Some [2, 3],
                best_hyperplane_normal = None, best_hyperplane_origin = None\<rparr> None None))"

definition ex_pruned_same :: node where
  "ex_pruned_same =
     Node \<lparr>partition_prior = 9 / 10, prior = [1, 1], is_regression = False,
          level = 0, n_dim = Some 1, posterior = Some [2, 4],
          best_hyperplane_normal = None, best_hyperplane_origin = None\<rparr> None None"

definition cx_root :: node where
  "cx_root = new_node (9/10) [5/2, 1] False 0"

definition cx_tree :: node where
  "cx_tree =
     Node \<lparr>partition_prior = 9 / 10, prior = [5/2, 1], is_regression = False,
          level = 0, n_dim = Some 1, posterior = Some [7/2, 4],
          best_hyperplane_normal = Some [Finite 1], best_hyperplane_origin = Some [Finite (1 / 2)]\<rparr>
       (Some (Node \<lparr>partition_prior = 9 / 10, prior = [5/2, 1], is_regression = False,
                level = 1, n_dim = None, posterior = Some [5/2, 2],
                best_hyperplane_normal = None, best_hyperplane_origin = None\<rparr> None None))
       (Some (Node \<lparr>partition_prior = 9 / 10, prior = [5/2, 1], is_regression = False,
                level = 1, n_dim = Some 1, posterior = Some [7/2, 3],
                best_hyperplane_normal = None, best_hyperplane_origin = None\<rparr> None None))"

definition cx_pruned :: node where
  "cx_pruned =
     Node \<lparr>partition_prior = 9 / 10, prior = [5/2, 1], is_regression = False,
          level = 0, n_dim = Some 1, posterior = Some [7/2, 4],
          best_hyperplane_normal = None, best_hyperplane_origin = None\<rparr> None None"

section \<open>Properties\<close>

subsection \<open>The examples, evaluated\<close>


lemma ex_predict: "predict ex_hooks ex_tree ex_X = (Inr [Finite 0, Finite 1, Finite 1], ex_tree)"
  by code_simp

lemma ex_fit2: "fit_rec ex_hooks ex_root ex_X2 ex_y2 0 = Inr ex_tree2"
  by code_simp

lemma ex_solve_root:
  "opt_best_hyperplane_normal (solve ex_hooks ex_root X y) = Some [Finite 1]"
  "opt_best_hyperplane_origin (solve ex_hooks ex_root X y) = Some [Finite (1/2)]"
  by (simp_all add: ex_hooks_def ex_root_def new_node_def)

lemma ex_projections2:
  "projections ex_X2 [Finite 1] (Some [Finite (1/2)]) = Inr [Finite (- (1/2)), Finite (1/2)]"
  by code_simp

lemma ex_where2:
  "where_lt0 [Finite (- (1/2)), Finite (1/2)] = [0]"
  "where_ge0 [Finite (- (1/2)), Finite (1/2)] = [1]"
  by (simp_all add: where_lt0_def where_ge0_def upt_rec)

lemma ex_child_indices2: "compute_child1_and_child2_indices ex_tree2 ex_X2 = Inr ([0], [1])"
  by (simp add: compute_child1_and_child2_indices_def ex_tree2_def ex_projections2 ex_where2)

lemma ex_fit_same: "fit_rec ex_hooks ex_root ex_X4 ex_y4 0 = Inr ex_tree_same"
  by code_simp

lemma ex_prune_same: "prune_rec ex_hooks ex_tree_same = Inr ex_pruned_same"
  by code_simp

lemma cx_prune: "prune_rec ex_hooks cx_tree = Inr cx_pruned"
  by code_simp

lemma cx_fit_prune: "fit ex_hooks cx_root ex_X4 ex_y4 0 True = Inr cx_pruned"
  by code_simp

lemma cx_predict_before:
  "fst (predict ex_hooks cx_tree ex_X4) = Inr [Finite 0, Finite 0, Finite 0, Finite 0]"
  by code_simp

lemma cx_predict_after:
  "fst (predict ex_hooks cx_pruned ex_X4) = Inr [Finite 1, Finite 1, Finite 1, Finite 1]"
  by code_simp

lemma ex_fit_nan: "fit_rec ex_hooks ex_root ex_X_nan ex_y 0 = Inr ex_tree_nan"
  by code_simp

lemma ex_projections_nan:
  "projections ex_X_nan [Finite 1] (Some [Finite (1/2)]) = Inr [Finite (- (1/2)), NaN, Finite (3/2)]"
  by code_simp

lemma ex_where_nan:
  "where_lt0 [Finite (- (1/2)), NaN, Finite (3/2)] = [0]"
  "where_ge0 [Finite (- (1/2)), NaN, Finite (3/2)] = [2]"
  by (simp_all add: where_lt0_def where_ge0_def upt_rec)

lemma ex_child_indices_nan: "compute_child1_and_child2_indices ex_tree ex_X_nan = Inr ([0], [2])"
  by code_simp

text \<open>
  A row that no child of the front child takes: alone, the front child has no result for
  it and the root stores NaN; beside a row that is routed to a leaf, it keeps the zero of
  the front child's array.
\<close>

lemma ex_predict_inf:
  "leaf_inv ex_tree_deep" "dims_ok 2 ex_tree_deep"
  "predict_rec ex_hooks (the (child2 ex_tree_deep)) ex_X_inf = Inr None"
  "fst (predict ex_hooks ex_tree_deep ex_X_inf) = Inr [NaN]"
  "fst (predict ex_hooks ex_tree_deep ex_X_inf2) = Inr [Finite 0, Finite 1]"
  by code_simp+

subsection \<open>Leaves and tree metrics\<close>

lemma leaf_levels_nonempty: "leaf_levels t \<noteq> []"
  by (induction t rule: leaf_levels.induct) (auto split: option.splits)

lemma is_leaf_inv: "leaf_inv t \<Longrightarrow> is_leaf t = Inr (child1 t = None)"
  by (cases t) (auto simp: is_leaf_def ensure_is_fitted_def split_consistent_def)

lemma update_depth_and_leaves_inv:
  "leaf_inv t \<Longrightarrow>
   update_depth_and_leaves t d l = Inr (max d (Max (set (leaf_levels t))), l + length (leaf_levels t))"
proof (induction t arbitrary: d l rule: leaf_levels.induct)
  case (1 f c1 c2)
  show ?case
  proof (cases c1)
    case None
    with 1 show ?thesis
      using is_leaf_inv[of "Node f c1 c2"] by (simp del: leaf_inv.simps)
  next
    case (Some a)
    with "1.prems" obtain b where b: "c2 = Some b"
      by (auto simp: split_consistent_def)
    have lf: "is_leaf (Node f c1 c2) = Inr False"
      using is_leaf_inv[OF "1.prems"] Some by simp
    have ia: "leaf_inv a" and ib: "leaf_inv b" using "1.prems" Some b by auto
    note IHa = "1.IH"(1)[OF Some b ia]
    note IHb = "1.IH"(2)[OF Some b ib]
    have fin: "finite (set (leaf_levels a))" "set (leaf_levels a) \<noteq> {}"
      "finite (set (leaf_levels b))" "set (leaf_levels b) \<noteq> {}"
      using leaf_levels_nonempty by auto
    show ?thesis
      using Some b lf fin
      by (simp add: IHa IHb Max_Un max.assoc del: leaf_inv.simps)
  qed
qed

lemma depth_and_leaves_inv:
  "leaf_inv t \<Longrightarrow> depth_and_leaves t = Inr (Max (set (leaf_levels t)), length (leaf_levels t))"
  using update_depth_and_leaves_inv[of t 0 0] by (simp add: depth_and_leaves_def)

lemma leaf_levels_internal:
  assumes "leaf_inv t" "child1 t \<noteq> None"
  shows "2 \<le> length (leaf_levels t)"
proof -
  from assms obtain f a b where t: "t = Node f (Some a) (Some b)"
    by (cases t) (auto simp: split_consistent_def)
  have "leaf_levels a \<noteq> []" "leaf_levels b \<noteq> []" by (rule leaf_levels_nonempty)+
  then have "1 \<le> length (leaf_levels a)" "1 \<le> length (leaf_levels b)"
    by (simp_all add: Suc_le_eq)
  then show ?thesis by (simp add: t)
qed

text \<open>
  C7. On a fitted tree \<^verbatim>\<open>depth_and_leaves()\<close> returns the maximum level among the
  leaves reachable from the node and the number of those leaves.
\<close>

theorem depth_and_leaves_counts:
  assumes "leaf_inv t"
  shows "depth_and_leaves t = Inr (Max (set (leaf_levels t)), length (leaf_levels t))"
  using update_depth_and_leaves_inv[OF assms, of 0 0] by (simp add: depth_and_leaves_def)

theorem depth_and_leaves_counts_witness:
  "leaf_inv ex_tree \<and> depth_and_leaves ex_tree = Inr (1, 2)"
proof -
  have h: "leaf_inv ex_tree" by code_simp
  have l: "leaf_levels ex_tree = [1, 1]" by code_simp
  from depth_and_leaves_counts[OF h] h show ?thesis by (simp add: l)
qed

text \<open>
  C10. \<^verbatim>\<open>is_leaf()\<close> on a node whose posterior is absent raises the value error of
  \<^verbatim>\<open>_ensure_is_fitted\<close>, also when no split is stored.
\<close>

theorem is_leaf_unfitted_raises:
  "posterior (attrs self) = None \<Longrightarrow> is_leaf self = Inl (ValueError Untrained)"
  by (simp add: is_leaf_def ensure_is_fitted_def)

theorem is_leaf_unfitted_raises_witness:
  "posterior (attrs (new_node (9/10) [1, 1] False 0)) = None \<and>
   best_hyperplane_normal (attrs (new_node (9/10) [1, 1] False 0)) = None \<and>
   is_leaf (new_node (9/10) [1, 1] False 0) = Inl (ValueError Untrained)"
  using is_leaf_unfitted_raises[of "new_node (9/10) [1, 1] False 0"]
  by (simp add: new_node_def)

subsection \<open>Partitioning by signed distance\<close>

lemma flt0_or_fge0: "flt0 x \<or> fge0 x \<longleftrightarrow> x \<noteq> NaN"
  by (cases x) auto

lemma projections_Some:
  assumes "projections X normal origin = Inr ps"
  shows "\<exists>og. origin = Some og \<and> length og = length normal \<and> shape1 X = length normal \<and>
              ps = map (\<lambda>r. signed_distance r normal og) (rows X)"
  using assms
  by (auto simp: projections_def matvec_def dot_def signed_distance_def
      split: sum.splits option.splits if_splits)

lemma projections_ok:
  "shape1 X = length normal \<Longrightarrow> length og = length normal \<Longrightarrow>
   projections X normal (Some og) = Inr (map (\<lambda>r. signed_distance r normal og) (rows X))"
  by (simp add: projections_def matvec_def dot_def signed_distance_def)

lemma set_where_lt0: "set (where_lt0 ps) = {i. i < length ps \<and> flt0 (ps ! i)}"
  by (auto simp: where_lt0_def)

lemma set_where_ge0: "set (where_ge0 ps) = {i. i < length ps \<and> fge0 (ps ! i)}"
  by (auto simp: where_ge0_def)

lemma distinct_where: "distinct (where_lt0 ps)" "distinct (where_ge0 ps)"
  by (simp_all add: where_lt0_def where_ge0_def)

lemma where_partition:
  "set (where_lt0 ps) \<inter> set (where_ge0 ps) = {}"
  "set (where_lt0 ps) \<union> set (where_ge0 ps) = {i. i < length ps \<and> ps ! i \<noteq> NaN}"
  using flt0_not_fge0 flt0_or_fge0 by (auto simp: set_where_lt0 set_where_ge0)

lemma where_in_range:
  "list_all (\<lambda>i. i < length ps) (where_lt0 ps)" "list_all (\<lambda>i. i < length ps) (where_ge0 ps)"
  by (simp_all add: where_lt0_def where_ge0_def list_all_iff)

lemma where_as_filter:
  assumes "ps = map (\<lambda>r. signed_distance r normal origin) (rows X)"
  shows "where_lt0 ps = filter (\<lambda>i. flt0 (signed_distance (rows X ! i) normal origin)) [0..<shape0 X]"
    and "where_ge0 ps = filter (\<lambda>i. fge0 (signed_distance (rows X ! i) normal origin)) [0..<shape0 X]"
proof -
  have len: "length ps = shape0 X" by (simp add: assms shape0_def)
  show "where_lt0 ps = filter (\<lambda>i. flt0 (signed_distance (rows X ! i) normal origin)) [0..<shape0 X]"
    unfolding where_lt0_def len by (rule filter_cong) (simp_all add: assms shape0_def)
  show "where_ge0 ps = filter (\<lambda>i. fge0 (signed_distance (rows X ! i) normal origin)) [0..<shape0 X]"
    unfolding where_ge0_def len by (rule filter_cong) (simp_all add: assms shape0_def)
qed

lemma where_cover:
  assumes "ps = map (\<lambda>r. signed_distance r normal origin) (rows X)"
  shows "set (where_lt0 ps) \<union> set (where_ge0 ps) =
           {i. i < shape0 X \<and> signed_distance (rows X ! i) normal origin \<noteq> NaN}"
  unfolding where_partition(2) by (auto simp: assms shape0_def)

lemma index_rows_where:
  assumes "projections X normal origin = Inr ps"
  shows "index_rows X (where_lt0 ps) = Inr (X\<lparr>rows := map ((!) (rows X)) (where_lt0 ps)\<rparr>)"
    "index_rows X (where_ge0 ps) = Inr (X\<lparr>rows := map ((!) (rows X)) (where_ge0 ps)\<rparr>)"
  using where_in_range[of ps] projections_length[OF assms]
  by (simp_all add: index_rows_def index_by_def shape0_def)

lemma index_rows_shape1: "index_rows X idx = Inr X1 \<Longrightarrow> shape1 X1 = shape1 X"
  by (auto simp: index_rows_def split: sum.splits)

lemma index_by_map: "index_by xs idx = Inr ys \<Longrightarrow> ys = map ((!) xs) idx"
  by (auto simp: index_by_def split: if_splits)

lemma predict_time_partition:
  assumes a: "compute_child1_and_child2_indices self X = Inr (indices1, indices2)"
  shows "\<exists>normal origin.
         best_hyperplane_normal (attrs self) = Some normal \<and>
         best_hyperplane_origin (attrs self) = Some origin \<and>
         indices1 = filter (\<lambda>i. flt0 (signed_distance (rows X ! i) normal origin)) [0..<shape0 X] \<and>
         indices2 = filter (\<lambda>i. fge0 (signed_distance (rows X ! i) normal origin)) [0..<shape0 X] \<and>
         set indices1 \<inter> set indices2 = {} \<and>
         set indices1 \<union> set indices2 =
           {i. i < shape0 X \<and> signed_distance (rows X ! i) normal origin \<noteq> NaN} \<and>
         distinct indices1 \<and> distinct indices2"
proof -
  from a obtain normal ps where n: "best_hyperplane_normal (attrs self) = Some normal"
    and p: "projections X normal (best_hyperplane_origin (attrs self)) = Inr ps"
    and i: "indices1 = where_lt0 ps" "indices2 = where_ge0 ps"
    by (auto simp: compute_child1_and_child2_indices_def split: option.splits sum.splits)
  from projections_Some[OF p] obtain origin where
    og: "best_hyperplane_origin (attrs self) = Some origin"
    and ps: "ps = map (\<lambda>r. signed_distance r normal origin) (rows X)"
    by blast
  note f = where_as_filter[OF ps]
  have "set indices1 \<inter> set indices2 = {}"
    "set indices1 \<union> set indices2 =
       {i. i < shape0 X \<and> signed_distance (rows X ! i) normal origin \<noteq> NaN}"
    "distinct indices1" "distinct indices2"
    unfolding i using where_partition(1)[of ps] where_cover[OF ps] distinct_where[of ps]
    by simp_all
  with n og f i show ?thesis by simp
qed

subsection \<open>The cases of fitting\<close>

lemma fit_rec_no_hyperplane:
  "opt_best_hyperplane_normal (solve h self X y) = None \<Longrightarrow>
   fit_rec h self X y delta = Inr (finish_fit h self X y)"
  by (simp add: fit_rec.simps)

lemma fit_rec_proj_error:
  "opt_best_hyperplane_normal (solve h self X y) = Some normal \<Longrightarrow>
   projections X normal (opt_best_hyperplane_origin (solve h self X y)) = Inl e \<Longrightarrow>
   fit_rec h self X y delta = Inl e"
  by (simp add: fit_rec.simps)

lemma fit_rec_empty_side:
  "opt_best_hyperplane_normal (solve h self X y) = Some normal \<Longrightarrow>
   projections X normal (opt_best_hyperplane_origin (solve h self X y)) = Inr ps \<Longrightarrow>
   where_lt0 ps = [] \<or> where_ge0 ps = [] \<Longrightarrow>
   fit_rec h self X y delta = Inr (finish_fit h self X y)"
  by (auto simp add: fit_rec.simps)

lemma fit_rec_split:
  assumes n: "opt_best_hyperplane_normal (solve h self X y) = Some normal"
    and p: "projections X normal (opt_best_hyperplane_origin (solve h self X y)) = Inr ps"
    and ne: "where_lt0 ps \<noteq> []" "where_ge0 ps \<noteq> []"
    and X1: "index_rows X (where_lt0 ps) = Inr X1" and X2: "index_rows X (where_ge0 ps) = Inr X2"
    and y1: "index_by y (where_lt0 ps) = Inr y1" and y2: "index_by y (where_ge0 ps) = Inr y2"
    and s: "s = with_children h self normal (opt_best_hyperplane_origin (solve h self X y)) y1 y2"
  shows "fit_rec h self X y delta =
           (case train_child h s (the (child1 s)) X1 y1 delta of
              Inl e \<Rightarrow> Inl e
            | Inr c1 \<Rightarrow>
                (case train_child h (Node (attrs s) (Some c1) (child2 s)) (the (child2 s)) X2 y2 delta of
                   Inl e \<Rightarrow> Inl e
                 | Inr c2 \<Rightarrow> Inr (finish_fit h (Node (attrs s) (Some c1) (Some c2)) X y)))"
  using n p ne X1 X2 y1 y2
  apply (subst fit_rec.simps)
  apply (simp add: s with_children_def train_child_def Let_def store_split_def child_type_def
      split: sum.splits)
  done

lemma finish_fit_sel [simp]:
  "child1 (finish_fit h self X y) = child1 self"
  "child2 (finish_fit h self X y) = child2 self"
  "best_hyperplane_normal (attrs (finish_fit h self X y)) = best_hyperplane_normal (attrs self)"
  "best_hyperplane_origin (attrs (finish_fit h self X y)) = best_hyperplane_origin (attrs self)"
  "n_dim (attrs (finish_fit h self X y)) = Some (shape1 X)"
  "posterior (attrs (finish_fit h self X y)) \<noteq> None"
  "level (attrs (finish_fit h self X y)) = level (attrs self)"
  by (simp_all add: finish_fit_def Let_def set_posterior_def set_n_dim_def)

lemma with_children_sel [simp]:
  "child1 (with_children h self normal origin y1 y2) =
     Some (child_type self (compute_posterior h self y1 0))"
  "child2 (with_children h self normal origin y1 y2) =
     Some (child_type self (compute_posterior h self y2 0))"
  "best_hyperplane_normal (attrs (with_children h self normal origin y1 y2)) = Some normal"
  "best_hyperplane_origin (attrs (with_children h self normal origin y1 y2)) = origin"
  "posterior (attrs (with_children h self normal origin y1 y2)) = posterior (attrs self)"
  "level (attrs (with_children h self normal origin y1 y2)) = level (attrs self)"
  by (simp_all add: with_children_def Let_def store_split_def child_type_def)

text \<open>What a successful fit that takes the split returns.\<close>

lemma fit_rec_split_result:
  assumes n: "opt_best_hyperplane_normal (solve h self X y) = Some normal"
    and p: "projections X normal (opt_best_hyperplane_origin (solve h self X y)) = Inr ps"
    and ne: "where_lt0 ps \<noteq> []" "where_ge0 ps \<noteq> []"
    and t: "fit_rec h self X y delta = Inr t"
  obtains X1 X2 y1 y2 s c1 c2 where
    "index_rows X (where_lt0 ps) = Inr X1" "index_rows X (where_ge0 ps) = Inr X2"
    "index_by y (where_lt0 ps) = Inr y1" "index_by y (where_ge0 ps) = Inr y2"
    "s = with_children h self normal (opt_best_hyperplane_origin (solve h self X y)) y1 y2"
    "train_child h s (child_type self (compute_posterior h self y1 0)) X1 y1 delta = Inr c1"
    "train_child h (Node (attrs s) (Some c1) (child2 s))
       (child_type self (compute_posterior h self y2 0)) X2 y2 delta = Inr c2"
    "t = finish_fit h (Node (attrs s) (Some c1) (Some c2)) X y"
proof -
  note X12 = index_rows_where[OF p]
  from t n p ne obtain y1 where y1: "index_by y (where_lt0 ps) = Inr y1"
    by (subst (asm) fit_rec.simps) (auto simp: X12 split: sum.splits)
  from t n p ne y1 obtain y2 where y2: "index_by y (where_ge0 ps) = Inr y2"
    by (subst (asm) fit_rec.simps) (auto simp: X12 split: sum.splits)
  define s where "s = with_children h self normal (opt_best_hyperplane_origin (solve h self X y)) y1 y2"
  note eq = t[unfolded fit_rec_split[OF n p ne X12 y1 y2 s_def, of delta]]
  from eq obtain c1 where c1: "train_child h s (the (child1 s)) (X\<lparr>rows := map ((!) (rows X)) (where_lt0 ps)\<rparr>) y1 delta = Inr c1"
    by (auto split: sum.splits)
  from eq c1 obtain c2 where c2: "train_child h (Node (attrs s) (Some c1) (child2 s)) (the (child2 s))
       (X\<lparr>rows := map ((!) (rows X)) (where_ge0 ps)\<rparr>) y2 delta = Inr c2"
    by (auto split: sum.splits)
  from eq c1 c2 have "t = finish_fit h (Node (attrs s) (Some c1) (Some c2)) X y" by simp
  with that[OF X12 y1 y2 s_def _ _ this] c1 c2 show thesis
    by (simp add: s_def)
qed

lemma fit_time_partition:
  assumes n: "opt_best_hyperplane_normal (solve h self X y) = Some normal'"
    and p: "projections X normal' (opt_best_hyperplane_origin (solve h self X y)) = Inr ps"
    and ne: "where_lt0 ps \<noteq> []" "where_ge0 ps \<noteq> []" and t: "fit_rec h self X y delta = Inr t"
  shows "\<exists>origin' y1 y2 s c1 c2.
         best_hyperplane_normal (attrs t) = Some normal' \<and>
         best_hyperplane_origin (attrs t) = Some origin' \<and>
         where_lt0 ps = filter (\<lambda>i. flt0 (signed_distance (rows X ! i) normal' origin')) [0..<shape0 X] \<and>
         where_ge0 ps = filter (\<lambda>i. fge0 (signed_distance (rows X ! i) normal' origin')) [0..<shape0 X] \<and>
         set (where_lt0 ps) \<inter> set (where_ge0 ps) = {} \<and>
         set (where_lt0 ps) \<union> set (where_ge0 ps) =
           {i. i < shape0 X \<and> signed_distance (rows X ! i) normal' origin' \<noteq> NaN} \<and>
         y1 = map ((!) y) (where_lt0 ps) \<and> y2 = map ((!) y) (where_ge0 ps) \<and>
         s = with_children h self normal' (Some origin') y1 y2 \<and>
         child1 t = Some c1 \<and> child2 t = Some c2 \<and>
         train_child h s (child_type self (compute_posterior h self y1 0))
           (X\<lparr>rows := map ((!) (rows X)) (where_lt0 ps)\<rparr>) y1 delta = Inr c1 \<and>
         train_child h (Node (attrs s) (Some c1) (child2 s))
           (child_type self (compute_posterior h self y2 0))
           (X\<lparr>rows := map ((!) (rows X)) (where_ge0 ps)\<rparr>) y2 delta = Inr c2"
proof -
  from projections_Some[OF p] obtain origin' where
    og: "opt_best_hyperplane_origin (solve h self X y) = Some origin'"
    and ps: "ps = map (\<lambda>r. signed_distance r normal' origin') (rows X)"
    by blast
  note f = where_as_filter[OF ps]
  from n p ne t obtain X1 X2 y1 y2 s c1 c2 where r:
    "index_rows X (where_lt0 ps) = Inr X1" "index_rows X (where_ge0 ps) = Inr X2"
    "index_by y (where_lt0 ps) = Inr y1" "index_by y (where_ge0 ps) = Inr y2"
    "s = with_children h self normal' (opt_best_hyperplane_origin (solve h self X y)) y1 y2"
    "train_child h s (child_type self (compute_posterior h self y1 0)) X1 y1 delta = Inr c1"
    "train_child h (Node (attrs s) (Some c1) (child2 s))
       (child_type self (compute_posterior h self y2 0)) X2 y2 delta = Inr c2"
    "t = finish_fit h (Node (attrs s) (Some c1) (Some c2)) X y"
    by (rule fit_rec_split_result)
  have t1: "best_hyperplane_normal (attrs t) = Some normal'"
    "best_hyperplane_origin (attrs t) = Some origin'" "child1 t = Some c1" "child2 t = Some c2"
    by (simp_all add: r(8) r(5) og)
  have part: "set (where_lt0 ps) \<inter> set (where_ge0 ps) = {}"
    "set (where_lt0 ps) \<union> set (where_ge0 ps) =
       {i. i < shape0 X \<and> signed_distance (rows X ! i) normal' origin' \<noteq> NaN}"
    using where_partition(1)[of ps] where_cover[OF ps] by simp_all
  have X12: "X1 = X\<lparr>rows := map ((!) (rows X)) (where_lt0 ps)\<rparr>"
    "X2 = X\<lparr>rows := map ((!) (rows X)) (where_ge0 ps)\<rparr>"
    using r(1,2) index_rows_where[OF p] by simp_all
  note ys = index_by_map[OF r(3)] index_by_map[OF r(4)]
  note s = r(5)[unfolded og]
  show ?thesis
    by (rule exI[of _ origin'], rule exI[of _ y1], rule exI[of _ y2], rule exI[of _ s],
        rule exI[of _ c1], rule exI[of _ c2])
       (intro conjI t1 f part ys s r(6)[unfolded X12] r(7)[unfolded X12])
qed

text \<open>
  C1. If the optimizer returns a hyperplane and the signed distances of the training rows
  leave one side empty, \<^verbatim>\<open>_fit\<close> succeeds, stores no split and creates no children:
  children and split attributes are what they were, so a node without a split is a leaf
  afterwards.
\<close>

theorem fit_rejects_empty_partition:
  assumes "opt_best_hyperplane_normal (solve h self X y) = Some normal"
    and "projections X normal (opt_best_hyperplane_origin (solve h self X y)) = Inr ps"
    and "where_lt0 ps = [] \<or> where_ge0 ps = []"
  shows "\<exists>t. fit_rec h self X y delta = Inr t \<and>
             child1 t = child1 self \<and> child2 t = child2 self \<and>
             best_hyperplane_normal (attrs t) = best_hyperplane_normal (attrs self) \<and>
             best_hyperplane_origin (attrs t) = best_hyperplane_origin (attrs self) \<and>
             (best_hyperplane_normal (attrs self) = None \<longrightarrow> is_leaf t = Inr True)"
  using fit_rec_empty_side[OF assms, of delta]
  by (simp add: is_leaf_def ensure_is_fitted_def)

theorem fit_rejects_empty_partition_witness:
  "opt_best_hyperplane_normal (solve ex_hooks_one_sided ex_root ex_X ex_y) = Some [Finite 1] \<and>
   projections ex_X [Finite 1] (opt_best_hyperplane_origin (solve ex_hooks_one_sided ex_root ex_X ex_y))
     = Inr [Finite 1, Finite 2, Finite 3] \<and>
   where_lt0 [Finite 1, Finite 2, Finite 3] = [] \<and>
   (\<exists>t. fit_rec ex_hooks_one_sided ex_root ex_X ex_y 0 = Inr t \<and>
        child1 t = None \<and> child2 t = None \<and>
        best_hyperplane_normal (attrs t) = None \<and> best_hyperplane_origin (attrs t) = None \<and>
        is_leaf t = Inr True)"
proof -
  have h1: "opt_best_hyperplane_normal (solve ex_hooks_one_sided ex_root ex_X ex_y) = Some [Finite 1]"
    by (simp add: ex_hooks_one_sided_def)
  have h2: "projections ex_X [Finite 1]
              (opt_best_hyperplane_origin (solve ex_hooks_one_sided ex_root ex_X ex_y))
              = Inr [Finite 1, Finite 2, Finite 3]"
    by code_simp
  have h3: "where_lt0 [Finite 1, Finite 2, Finite 3] = []"
    by (simp add: where_lt0_def upt_rec)
  have r: "child1 ex_root = None" "child2 ex_root = None"
    "best_hyperplane_normal (attrs ex_root) = None" "best_hyperplane_origin (attrs ex_root) = None"
    by (simp_all add: ex_root_def new_node_def)
  from fit_rejects_empty_partition[OF h1 h2 disjI1[OF h3], of 0] r h1 h2 h3
  show ?thesis by simp
qed

text \<open>
  C8. When \<^verbatim>\<open>_fit\<close> stores a split, a side with exactly one sample gets the fresh
  child with its posterior set from that sample by the parent: the child has no children,
  no split and no \<^verbatim>\<open>n_dim\<close> (which every run of \<^verbatim>\<open>_fit\<close> sets), and is a leaf.
\<close>

theorem single_sample_child_not_fitted_recursively:
  assumes "opt_best_hyperplane_normal (solve h self X y) = Some normal"
    and "projections X normal (opt_best_hyperplane_origin (solve h self X y)) = Inr ps"
    and "where_lt0 ps \<noteq> []" and "where_ge0 ps \<noteq> []"
    and "fit_rec h self X y delta = Inr t"
  shows "\<exists>y1 y2 s c1 c2.
           index_by y (where_lt0 ps) = Inr y1 \<and> index_by y (where_ge0 ps) = Inr y2 \<and>
           s = with_children h self normal (opt_best_hyperplane_origin (solve h self X y)) y1 y2 \<and>
           child1 t = Some c1 \<and> child2 t = Some c2 \<and>
           (length (where_lt0 ps) = 1 \<longrightarrow>
              c1 = set_posterior (child_type self (compute_posterior h self y1 0))
                     (compute_posterior h s y1 1) \<and>
              child1 c1 = None \<and> child2 c1 = None \<and> n_dim (attrs c1) = None \<and>
              is_leaf c1 = Inr True) \<and>
           (length (where_ge0 ps) = 1 \<longrightarrow>
              c2 = set_posterior (child_type self (compute_posterior h self y2 0))
                     (compute_posterior h (Node (attrs s) (Some c1) (child2 s)) y2 1) \<and>
              child1 c2 = None \<and> child2 c2 = None \<and> n_dim (attrs c2) = None \<and>
              is_leaf c2 = Inr True)"
proof -
  from assms obtain X1 X2 y1 y2 s c1 c2 where r:
    "index_rows X (where_lt0 ps) = Inr X1" "index_rows X (where_ge0 ps) = Inr X2"
    "index_by y (where_lt0 ps) = Inr y1" "index_by y (where_ge0 ps) = Inr y2"
    "s = with_children h self normal (opt_best_hyperplane_origin (solve h self X y)) y1 y2"
    "train_child h s (child_type self (compute_posterior h self y1 0)) X1 y1 delta = Inr c1"
    "train_child h (Node (attrs s) (Some c1) (child2 s))
       (child_type self (compute_posterior h self y2 0)) X2 y2 delta = Inr c2"
    "t = finish_fit h (Node (attrs s) (Some c1) (Some c2)) X y"
    by (rule fit_rec_split_result)
  have fresh: "\<And>p q. child1 (set_posterior (child_type self p) q) = None"
    "\<And>p q. child2 (set_posterior (child_type self p) q) = None"
    "\<And>p q. n_dim (attrs (set_posterior (child_type self p) q)) = None"
    "\<And>p q. is_leaf (set_posterior (child_type self p) q) = Inr True"
    by (simp_all add: set_posterior_def child_type_def new_node_def is_leaf_def ensure_is_fitted_def)
  have 1: "length (where_lt0 ps) = 1 \<Longrightarrow>
     c1 = set_posterior (child_type self (compute_posterior h self y1 0)) (compute_posterior h s y1 1)"
    using r(6) index_rows_shape0[OF r(1)] by (simp add: train_child_def)
  have 2: "length (where_ge0 ps) = 1 \<Longrightarrow>
     c2 = set_posterior (child_type self (compute_posterior h self y2 0))
            (compute_posterior h (Node (attrs s) (Some c1) (child2 s)) y2 1)"
    using r(7) index_rows_shape0[OF r(2)] by (simp add: train_child_def)
  have "child1 t = Some c1" "child2 t = Some c2" by (simp_all add: r(8))
  with r(3,4,5) 1 2 fresh show ?thesis by auto
qed

theorem single_sample_child_not_fitted_recursively_witness:
  "opt_best_hyperplane_normal (solve ex_hooks ex_root ex_X2 ex_y2) = Some [Finite 1] \<and>
   projections ex_X2 [Finite 1] (opt_best_hyperplane_origin (solve ex_hooks ex_root ex_X2 ex_y2))
     = Inr [Finite (- (1/2)), Finite (1/2)] \<and>
   length (where_lt0 [Finite (- (1/2)), Finite (1/2)]) = 1 \<and> length (where_ge0 [Finite (- (1/2)), Finite (1/2)]) = 1 \<and>
   fit_rec ex_hooks ex_root ex_X2 ex_y2 0 = Inr ex_tree2 \<and>
   (\<exists>c1 c2. child1 ex_tree2 = Some c1 \<and> child2 ex_tree2 = Some c2 \<and>
      child1 c1 = None \<and> child2 c1 = None \<and> n_dim (attrs c1) = None \<and> is_leaf c1 = Inr True \<and>
      child1 c2 = None \<and> child2 c2 = None \<and> n_dim (attrs c2) = None \<and> is_leaf c2 = Inr True)"
proof -
  have h1: "opt_best_hyperplane_normal (solve ex_hooks ex_root ex_X2 ex_y2) = Some [Finite 1]"
    by (rule ex_solve_root)
  have h2: "projections ex_X2 [Finite 1] (opt_best_hyperplane_origin (solve ex_hooks ex_root ex_X2 ex_y2))
     = Inr [Finite (- (1/2)), Finite (1/2)]"
    by (simp add: ex_solve_root ex_projections2)
  have h3: "where_lt0 [Finite (- (1/2)), Finite (1/2)] \<noteq> []" and h4: "where_ge0 [Finite (- (1/2)), Finite (1/2)] \<noteq> []"
    by (simp_all add: ex_where2)
  have l: "length (where_lt0 [Finite (- (1/2)), Finite (1/2)]) = 1" "length (where_ge0 [Finite (- (1/2)), Finite (1/2)]) = 1"
    by (simp_all add: ex_where2)
  from single_sample_child_not_fitted_recursively[OF h1 h2 h3 h4 ex_fit2] l
  have "\<exists>c1 c2. child1 ex_tree2 = Some c1 \<and> child2 ex_tree2 = Some c2 \<and>
      child1 c1 = None \<and> child2 c1 = None \<and> n_dim (attrs c1) = None \<and> is_leaf c1 = Inr True \<and>
      child1 c2 = None \<and> child2 c2 = None \<and> n_dim (attrs c2) = None \<and> is_leaf c2 = Inr True"
    by blast
  with h1 h2 l ex_fit2 show ?thesis by blast
qed

text \<open>
  C2. At predict time \<^verbatim>\<open>_compute_child1_and_child2_indices\<close> returns the
  rows with negative signed distance to the stored hyperplane for child1 and the rows with
  non-negative distance for child2. The two index lists are disjoint and without
  repetition, and together they cover exactly the rows whose signed distance is not NaN: a
  row with NaN for its distance is assigned to neither child. At fit time a stored split
  divides the training rows in the same way, and each child is trained on the rows and
  labels of its side.
\<close>

theorem rows_assigned_by_sign_of_distance:
  "(compute_child1_and_child2_indices self X = Inr (indices1, indices2) \<longrightarrow>
      (\<exists>normal origin.
         best_hyperplane_normal (attrs self) = Some normal \<and>
         best_hyperplane_origin (attrs self) = Some origin \<and>
         indices1 = filter (\<lambda>i. flt0 (signed_distance (rows X ! i) normal origin)) [0..<shape0 X] \<and>
         indices2 = filter (\<lambda>i. fge0 (signed_distance (rows X ! i) normal origin)) [0..<shape0 X] \<and>
         set indices1 \<inter> set indices2 = {} \<and>
         set indices1 \<union> set indices2 =
           {i. i < shape0 X \<and> signed_distance (rows X ! i) normal origin \<noteq> NaN} \<and>
         distinct indices1 \<and> distinct indices2)) \<and>
   (opt_best_hyperplane_normal (solve h nd X y) = Some normal' \<and>
    projections X normal' (opt_best_hyperplane_origin (solve h nd X y)) = Inr ps \<and>
    where_lt0 ps \<noteq> [] \<and> where_ge0 ps \<noteq> [] \<and> fit_rec h nd X y delta = Inr t \<longrightarrow>
      (\<exists>origin' y1 y2 s c1 c2.
         best_hyperplane_normal (attrs t) = Some normal' \<and>
         best_hyperplane_origin (attrs t) = Some origin' \<and>
         where_lt0 ps = filter (\<lambda>i. flt0 (signed_distance (rows X ! i) normal' origin')) [0..<shape0 X] \<and>
         where_ge0 ps = filter (\<lambda>i. fge0 (signed_distance (rows X ! i) normal' origin')) [0..<shape0 X] \<and>
         set (where_lt0 ps) \<inter> set (where_ge0 ps) = {} \<and>
         set (where_lt0 ps) \<union> set (where_ge0 ps) =
           {i. i < shape0 X \<and> signed_distance (rows X ! i) normal' origin' \<noteq> NaN} \<and>
         y1 = map ((!) y) (where_lt0 ps) \<and> y2 = map ((!) y) (where_ge0 ps) \<and>
         s = with_children h nd normal' (Some origin') y1 y2 \<and>
         child1 t = Some c1 \<and> child2 t = Some c2 \<and>
         train_child h s (child_type nd (compute_posterior h nd y1 0))
           (X\<lparr>rows := map ((!) (rows X)) (where_lt0 ps)\<rparr>) y1 delta = Inr c1 \<and>
         train_child h (Node (attrs s) (Some c1) (child2 s))
           (child_type nd (compute_posterior h nd y2 0))
           (X\<lparr>rows := map ((!) (rows X)) (where_ge0 ps)\<rparr>) y2 delta = Inr c2))"
proof (intro conjI impI)
  assume "compute_child1_and_child2_indices self X = Inr (indices1, indices2)"
  then show "\<exists>normal origin.
         best_hyperplane_normal (attrs self) = Some normal \<and>
         best_hyperplane_origin (attrs self) = Some origin \<and>
         indices1 = filter (\<lambda>i. flt0 (signed_distance (rows X ! i) normal origin)) [0..<shape0 X] \<and>
         indices2 = filter (\<lambda>i. fge0 (signed_distance (rows X ! i) normal origin)) [0..<shape0 X] \<and>
         set indices1 \<inter> set indices2 = {} \<and>
         set indices1 \<union> set indices2 =
           {i. i < shape0 X \<and> signed_distance (rows X ! i) normal origin \<noteq> NaN} \<and>
         distinct indices1 \<and> distinct indices2"
    by (rule predict_time_partition)
next
  assume a: "opt_best_hyperplane_normal (solve h nd X y) = Some normal' \<and>
    projections X normal' (opt_best_hyperplane_origin (solve h nd X y)) = Inr ps \<and>
    where_lt0 ps \<noteq> [] \<and> where_ge0 ps \<noteq> [] \<and> fit_rec h nd X y delta = Inr t"
  show "\<exists>origin' y1 y2 s c1 c2.
         best_hyperplane_normal (attrs t) = Some normal' \<and>
         best_hyperplane_origin (attrs t) = Some origin' \<and>
         where_lt0 ps = filter (\<lambda>i. flt0 (signed_distance (rows X ! i) normal' origin')) [0..<shape0 X] \<and>
         where_ge0 ps = filter (\<lambda>i. fge0 (signed_distance (rows X ! i) normal' origin')) [0..<shape0 X] \<and>
         set (where_lt0 ps) \<inter> set (where_ge0 ps) = {} \<and>
         set (where_lt0 ps) \<union> set (where_ge0 ps) =
           {i. i < shape0 X \<and> signed_distance (rows X ! i) normal' origin' \<noteq> NaN} \<and>
         y1 = map ((!) y) (where_lt0 ps) \<and> y2 = map ((!) y) (where_ge0 ps) \<and>
         s = with_children h nd normal' (Some origin') y1 y2 \<and>
         child1 t = Some c1 \<and> child2 t = Some c2 \<and>
         train_child h s (child_type nd (compute_posterior h nd y1 0))
           (X\<lparr>rows := map ((!) (rows X)) (where_lt0 ps)\<rparr>) y1 delta = Inr c1 \<and>
         train_child h (Node (attrs s) (Some c1) (child2 s))
           (child_type nd (compute_posterior h nd y2 0))
           (X\<lparr>rows := map ((!) (rows X)) (where_ge0 ps)\<rparr>) y2 delta = Inr c2"
    by (rule fit_time_partition) (use a in simp_all)
qed

theorem rows_assigned_by_sign_of_distance_witness:
  "compute_child1_and_child2_indices ex_tree ex_X_nan = Inr ([0], [2]) \<and>
   opt_best_hyperplane_normal (solve ex_hooks ex_root ex_X_nan ex_y) = Some [Finite 1] \<and>
   projections ex_X_nan [Finite 1] (opt_best_hyperplane_origin (solve ex_hooks ex_root ex_X_nan ex_y))
     = Inr [Finite (- (1/2)), NaN, Finite (3/2)] \<and>
   where_lt0 [Finite (- (1/2)), NaN, Finite (3/2)] = [0] \<and>
   where_ge0 [Finite (- (1/2)), NaN, Finite (3/2)] = [2] \<and>
   fit_rec ex_hooks ex_root ex_X_nan ex_y 0 = Inr ex_tree_nan \<and>
   (\<exists>normal origin.
      best_hyperplane_normal (attrs ex_tree) = Some normal \<and>
      best_hyperplane_origin (attrs ex_tree) = Some origin \<and>
      [0] = filter (\<lambda>i. flt0 (signed_distance (rows ex_X_nan ! i) normal origin)) [0..<shape0 ex_X_nan] \<and>
      [2] = filter (\<lambda>i. fge0 (signed_distance (rows ex_X_nan ! i) normal origin)) [0..<shape0 ex_X_nan] \<and>
      set [0] \<union> set [2] =
        {i. i < shape0 ex_X_nan \<and> signed_distance (rows ex_X_nan ! i) normal origin \<noteq> NaN}) \<and>
   (\<exists>c1 c2.
      child1 ex_tree_nan = Some c1 \<and> child2 ex_tree_nan = Some c2 \<and>
      train_child ex_hooks
        (with_children ex_hooks ex_root [Finite 1] (Some [Finite (1/2)]) [0] [1])
        (child_type ex_root (compute_posterior ex_hooks ex_root [0] 0))
        (ex_X_nan\<lparr>rows := [[Finite 0]]\<rparr>) [0] 0 = Inr c1)"
proof -
  have h1: "opt_best_hyperplane_normal (solve ex_hooks ex_root ex_X_nan ex_y) = Some [Finite 1]"
    by (rule ex_solve_root)
  have h2: "projections ex_X_nan [Finite 1]
              (opt_best_hyperplane_origin (solve ex_hooks ex_root ex_X_nan ex_y))
              = Inr [Finite (- (1/2)), NaN, Finite (3/2)]"
    by (simp add: ex_solve_root ex_projections_nan)
  have h3: "where_lt0 [Finite (- (1/2)), NaN, Finite (3/2)] \<noteq> []"
    and h4: "where_ge0 [Finite (- (1/2)), NaN, Finite (3/2)] \<noteq> []"
    by (simp_all add: ex_where_nan)
  have og: "\<And>origin'. best_hyperplane_origin (attrs ex_tree_nan) = Some origin' \<Longrightarrow>
              origin' = [Finite (1/2)]"
    by (simp add: ex_tree_nan_def)
  have sel: "map ((!) ex_y) [0] = [0]" "map ((!) ex_y) [2] = [1]"
    "map ((!) (rows ex_X_nan)) [0] = [[Finite 0]]"
    by (simp_all add: ex_y_def ex_X_nan_def)
  note inst = rows_assigned_by_sign_of_distance[of ex_tree ex_X_nan "[0]" "[2]" ex_hooks ex_root ex_y
      "[Finite 1]" "[Finite (- (1/2)), NaN, Finite (3/2)]" 0 ex_tree_nan]
  from inst ex_child_indices_nan have a: "\<exists>normal origin.
      best_hyperplane_normal (attrs ex_tree) = Some normal \<and>
      best_hyperplane_origin (attrs ex_tree) = Some origin \<and>
      [0] = filter (\<lambda>i. flt0 (signed_distance (rows ex_X_nan ! i) normal origin)) [0..<shape0 ex_X_nan] \<and>
      [2] = filter (\<lambda>i. fge0 (signed_distance (rows ex_X_nan ! i) normal origin)) [0..<shape0 ex_X_nan] \<and>
      set [0] \<union> set [2] =
        {i. i < shape0 ex_X_nan \<and> signed_distance (rows ex_X_nan ! i) normal origin \<noteq> NaN}"
    by blast
  from inst h1 h2 h3 h4 ex_fit_nan have "\<exists>origin' c1 c2.
      best_hyperplane_origin (attrs ex_tree_nan) = Some origin' \<and>
      child1 ex_tree_nan = Some c1 \<and> child2 ex_tree_nan = Some c2 \<and>
      train_child ex_hooks
        (with_children ex_hooks ex_root [Finite 1] (Some origin') [0] [1])
        (child_type ex_root (compute_posterior ex_hooks ex_root [0] 0))
        (ex_X_nan\<lparr>rows := [[Finite 0]]\<rparr>) [0] 0 = Inr c1"
    unfolding ex_where_nan sel by blast
  with og have b: "\<exists>c1 c2.
      child1 ex_tree_nan = Some c1 \<and> child2 ex_tree_nan = Some c2 \<and>
      train_child ex_hooks
        (with_children ex_hooks ex_root [Finite 1] (Some [Finite (1/2)]) [0] [1])
        (child_type ex_root (compute_posterior ex_hooks ex_root [0] 0))
        (ex_X_nan\<lparr>rows := [[Finite 0]]\<rparr>) [0] 0 = Inr c1"
    by blast
  from ex_child_indices_nan h1 h2 ex_where_nan ex_fit_nan a b show ?thesis by blast
qed

text \<open>
  The two index lists do not cover all rows when a row has a NaN feature: of the three
  rows of \<open>ex_X_nan\<close> the second has NaN for its signed distance and is in neither index
  list, at predict time and at fit time, where the children are trained on the first and
  on the third sample only.
\<close>

theorem nan_row_assigned_to_neither_child:
  "shape0 ex_X_nan = 3 \<and> rows ex_X_nan ! 1 = [NaN] \<and>
   best_hyperplane_normal (attrs ex_tree) = Some [Finite 1] \<and>
   best_hyperplane_origin (attrs ex_tree) = Some [Finite (1/2)] \<and>
   signed_distance [NaN] [Finite 1] [Finite (1/2)] = NaN \<and>
   compute_child1_and_child2_indices ex_tree ex_X_nan = Inr ([0], [2]) \<and>
   1 \<notin> set [0::nat] \<union> set [2] \<and>
   solve ex_hooks ex_root ex_X_nan ex_y =
     \<lparr> opt_best_hyperplane_normal = Some [Finite 1], opt_best_hyperplane_origin = Some [Finite (1/2)] \<rparr> \<and>
   projections ex_X_nan [Finite 1] (Some [Finite (1/2)]) = Inr [Finite (- (1/2)), NaN, Finite (3/2)] \<and>
   where_lt0 [Finite (- (1/2)), NaN, Finite (3/2)] = [0] \<and>
   where_ge0 [Finite (- (1/2)), NaN, Finite (3/2)] = [2] \<and>
   fit_rec ex_hooks ex_root ex_X_nan ex_y 0 = Inr ex_tree_nan"
proof -
  have "shape0 ex_X_nan = 3" "rows ex_X_nan ! 1 = [NaN]"
    "best_hyperplane_normal (attrs ex_tree) = Some [Finite 1]"
    "best_hyperplane_origin (attrs ex_tree) = Some [Finite (1/2)]"
    "signed_distance [NaN] [Finite 1] [Finite (1/2)] = NaN"
    "solve ex_hooks ex_root ex_X_nan ex_y =
       \<lparr> opt_best_hyperplane_normal = Some [Finite 1], opt_best_hyperplane_origin = Some [Finite (1/2)] \<rparr>"
    by code_simp+
  with ex_child_indices_nan ex_projections_nan ex_where_nan ex_fit_nan show ?thesis by simp
qed

subsection \<open>Fitting establishes the invariants\<close>

lemma leaf_inv_alt: "leaf_inv t \<longleftrightarrow> posterior (attrs t) \<noteq> None \<and> children_inv t"
  by (cases t) (simp add: children_inv_def)

lemma children_inv_new: "children_inv (child_type self p)"
  by (simp add: children_inv_def child_type_def new_node_def split_consistent_def)

lemma dims_ok_new: "dims_ok d (child_type self p)"
  by (simp add: child_type_def new_node_def)

lemma children_inv_finish: "children_inv self \<Longrightarrow> leaf_inv (finish_fit h self X y)"
  by (auto simp add: leaf_inv_alt children_inv_def split_consistent_def)

lemma dims_ok_attrs:
  "dims_ok d t \<longleftrightarrow>
     (case best_hyperplane_normal (attrs t) of None \<Rightarrow> True | Some n \<Rightarrow> length n = d) \<and>
     (case best_hyperplane_origin (attrs t) of None \<Rightarrow> True | Some og \<Rightarrow> length og = d) \<and>
     (case child1 t of None \<Rightarrow> True | Some a \<Rightarrow> dims_ok d a) \<and>
     (case child2 t of None \<Rightarrow> True | Some b \<Rightarrow> dims_ok d b)"
  by (cases t) simp

lemma dims_ok_finish: "dims_ok d self \<Longrightarrow> dims_ok d (finish_fit h self X y)"
  by (simp add: dims_ok_attrs[of d "finish_fit h self X y"] dims_ok_attrs[of d self])

lemma leaf_inv_set_posterior: "children_inv c \<Longrightarrow> leaf_inv (set_posterior c p)"
  by (auto simp add: leaf_inv_alt set_posterior_def children_inv_def split_consistent_def)

lemma dims_ok_set_posterior: "dims_ok d c \<Longrightarrow> dims_ok d (set_posterior c p)"
  by (simp add: set_posterior_def dims_ok_attrs[of d c])

lemma fit_rec_inv:
  assumes "children_inv self" "fit_rec h self X y delta = Inr t"
  shows "leaf_inv t \<and> (dims_ok (shape1 X) self \<longrightarrow> dims_ok (shape1 X) t) \<and>
         n_dim (attrs t) = Some (shape1 X) \<and> level (attrs t) = level (attrs self)"
  using assms
proof (induction "shape0 X" arbitrary: self X y t rule: less_induct)
  case less
  show ?case
  proof (cases "opt_best_hyperplane_normal (solve h self X y)")
    case None
    from less.prems(2)[unfolded fit_rec_no_hyperplane[OF None]] less.prems(1)
    show ?thesis by (auto simp: children_inv_finish dims_ok_finish)
  next
    case (Some normal)
    show ?thesis
    proof (cases "projections X normal (opt_best_hyperplane_origin (solve h self X y))")
      case (Inl e)
      from less.prems(2) fit_rec_proj_error[OF Some Inl] show ?thesis by simp
    next
      case (Inr ps)
      show ?thesis
      proof (cases "where_lt0 ps = [] \<or> where_ge0 ps = []")
        case True
        from less.prems(2)[unfolded fit_rec_empty_side[OF Some Inr True]] less.prems(1)
        show ?thesis by (auto simp: children_inv_finish dims_ok_finish)
      next
        case False
        then have ne: "where_lt0 ps \<noteq> []" "where_ge0 ps \<noteq> []" by simp_all
        from Some Inr ne less.prems(2) obtain X1 X2 y1 y2 s c1 c2 where r:
          "index_rows X (where_lt0 ps) = Inr X1" "index_rows X (where_ge0 ps) = Inr X2"
          "index_by y (where_lt0 ps) = Inr y1" "index_by y (where_ge0 ps) = Inr y2"
          "s = with_children h self normal (opt_best_hyperplane_origin (solve h self X y)) y1 y2"
          "train_child h s (child_type self (compute_posterior h self y1 0)) X1 y1 delta = Inr c1"
          "train_child h (Node (attrs s) (Some c1) (child2 s))
             (child_type self (compute_posterior h self y2 0)) X2 y2 delta = Inr c2"
          "t = finish_fit h (Node (attrs s) (Some c1) (Some c2)) X y"
          by (rule fit_rec_split_result)
        from projections_Some[OF Inr] obtain og where
          og: "opt_best_hyperplane_origin (solve h self X y) = Some og"
          and len: "length og = length normal" "shape1 X = length normal"
          by blast
        have c1: "leaf_inv c1 \<and> dims_ok (shape1 X) c1"
        proof (cases "shape0 X1 > 1")
          case True
          with r(6) have "fit_rec h (child_type self (compute_posterior h self y1 0)) X1 y1 delta = Inr c1"
            by (simp add: train_child_def)
          from less.hyps[OF fit_rec_smaller1[OF Inr ne r(1)] children_inv_new this]
          show ?thesis by (simp add: index_rows_shape1[OF r(1)] dims_ok_new)
        next
          case False
          with r(6) show ?thesis
            by (auto simp: train_child_def leaf_inv_set_posterior children_inv_new
                dims_ok_set_posterior dims_ok_new)
        qed
        have c2: "leaf_inv c2 \<and> dims_ok (shape1 X) c2"
        proof (cases "shape0 X2 > 1")
          case True
          with r(7) have "fit_rec h (child_type self (compute_posterior h self y2 0)) X2 y2 delta = Inr c2"
            by (simp add: train_child_def)
          from less.hyps[OF fit_rec_smaller2[OF Inr ne r(2)] children_inv_new this]
          show ?thesis by (simp add: index_rows_shape1[OF r(2)] dims_ok_new)
        next
          case False
          with r(7) show ?thesis
            by (auto simp: train_child_def leaf_inv_set_posterior children_inv_new
                dims_ok_set_posterior dims_ok_new)
        qed
        have "children_inv (Node (attrs s) (Some c1) (Some c2))"
          using c1 c2 by (simp add: children_inv_def split_consistent_def r(5) og)
        moreover have "dims_ok (shape1 X) (Node (attrs s) (Some c1) (Some c2))"
          using c1 c2 len by (simp add: r(5) og)
        ultimately show ?thesis
          by (simp add: r(8) children_inv_finish dims_ok_finish r(5))
      qed
    qed
  qed
qed

subsection \<open>Prediction routes rows to leaves\<close>

text \<open>Storing values at distinct indices, and storing one value at every index.\<close>

lemma foldl_update_zip:
  "distinct idx \<Longrightarrow> length vs = length idx \<Longrightarrow> list_all (\<lambda>i. i < length a) idx \<Longrightarrow>
   length (foldl (\<lambda>b (i, v). b[i := v]) a (zip idx vs)) = length a \<and>
   (\<forall>j. j \<notin> set idx \<longrightarrow> foldl (\<lambda>b (i, v). b[i := v]) a (zip idx vs) ! j = a ! j) \<and>
   (\<forall>k<length idx. foldl (\<lambda>b (i, v). b[i := v]) a (zip idx vs) ! (idx ! k) = vs ! k)"
proof (induction idx arbitrary: a vs)
  case Nil
  then show ?case by simp
next
  case (Cons i idx)
  from Cons.prems(2) obtain v vs' where vs: "vs = v # vs'" by (cases vs) auto
  let ?b = "foldl (\<lambda>b (i, v). b[i := v]) (a[i := v]) (zip idx vs')"
  have IH: "length ?b = length a" "\<And>j. j \<notin> set idx \<Longrightarrow> ?b ! j = (a[i := v]) ! j"
    "\<And>k. k < length idx \<Longrightarrow> ?b ! (idx ! k) = vs' ! k"
    using Cons.IH[of vs' "a[i := v]"] Cons.prems by (simp_all add: vs)
  have i: "i \<notin> set idx" "i < length a" using Cons.prems by simp_all
  have "?b ! i = v" using IH(2)[OF i(1)] i(2) by simp
  moreover have "\<And>j. j \<notin> set (i # idx) \<Longrightarrow> ?b ! j = a ! j" using IH(2) by simp
  ultimately show ?case
    using IH(1,3) by (auto simp: vs nth_Cons split: nat.splits)
qed

lemma foldl_update_const:
  "list_all (\<lambda>i. i < length a) idx \<Longrightarrow>
   length (foldl (\<lambda>b i. b[i := c]) a idx) = length a \<and>
   (\<forall>j. j \<notin> set idx \<longrightarrow> foldl (\<lambda>b i. b[i := c]) a idx ! j = a ! j) \<and>
   (\<forall>j\<in>set idx. foldl (\<lambda>b i. b[i := c]) a idx ! j = c)"
proof (induction idx arbitrary: a)
  case Nil
  then show ?case by simp
next
  case (Cons i idx)
  let ?b = "foldl (\<lambda>b i. b[i := c]) (a[i := c]) idx"
  have IH: "length ?b = length a" "\<And>j. j \<notin> set idx \<Longrightarrow> ?b ! j = (a[i := c]) ! j"
    "\<And>j. j \<in> set idx \<Longrightarrow> ?b ! j = c"
    using Cons.IH[of "a[i := c]"] Cons.prems by simp_all
  have "?b ! i = c"
    using IH(2)[of i] IH(3)[of i] Cons.prems by (cases "i \<in> set idx") simp_all
  then show ?case using IH by auto
qed

lemma assign_at_spec:
  assumes rng: "list_all (\<lambda>i. i < length a) idx" and d: "distinct idx"
    and len: "\<And>v. vs = Some v \<Longrightarrow> length v = length idx"
  shows "\<exists>b. assign_at a idx vs = Inr b \<and> length b = length a \<and>
             (\<forall>j. j \<notin> set idx \<longrightarrow> b ! j = a ! j) \<and>
             (\<forall>k<length idx. b ! (idx ! k) = (case vs of None \<Rightarrow> NaN | Some v \<Rightarrow> v ! k))"
proof (cases vs)
  case None
  with rng foldl_update_const[OF rng, of NaN] show ?thesis
    by (simp add: assign_at_def)
next
  case (Some v)
  with rng foldl_update_zip[OF d len[OF Some] rng] len[OF Some] show ?thesis
    by (simp add: assign_at_def)
qed

lemma leaf_for_leaf: "leaf_inv t \<Longrightarrow> child1 t = None \<Longrightarrow> leaf_for t r = Some t"
  by (cases t) (auto simp: split_consistent_def)

lemma leaf_for_internal:
  assumes "best_hyperplane_normal f = Some normal" "best_hyperplane_origin f = Some og"
  shows "leaf_for (Node f (Some a) (Some b)) r =
           (if flt0 (signed_distance r normal og) then leaf_for a r
            else if fge0 (signed_distance r normal og) then leaf_for b r else None)"
  using assms by simp

text \<open>
  What a child's result has for the rows sent to it, with NaN standing for the entries of
  a result that is \<^verbatim>\<open>None\<close>.
\<close>

lemma child_entries:
  assumes "case r of
             None \<Rightarrow> child1 c \<noteq> None \<and> (\<forall>k<shape0 Xc. leaf_for c (rows Xc ! k) = None)
           | Some p \<Rightarrow> length p = shape0 Xc \<and> (\<forall>k<shape0 Xc. routed_entry h c (rows Xc ! k) (p ! k))"
    and "rows Xc = map ((!) rs) idx"
  shows "\<And>v. r = Some v \<Longrightarrow> length v = length idx"
    and "\<And>k. k < length idx \<Longrightarrow>
           routed_entry h c (rs ! (idx ! k)) (case r of None \<Rightarrow> NaN | Some v \<Rightarrow> v ! k)"
  using assms by (auto simp: shape0_def routed_entry_def split: option.splits)

lemma predict_rec_routes:
  assumes "leaf_inv t" "dims_ok (shape1 X) t"
  shows "\<exists>r. predict_rec h t X = Inr r \<and>
             (case r of
                None \<Rightarrow> child1 t \<noteq> None \<and> (\<forall>i<shape0 X. leaf_for t (rows X ! i) = None)
              | Some ps \<Rightarrow> length ps = shape0 X \<and>
                           (\<forall>i<shape0 X. routed_entry h t (rows X ! i) (ps ! i)))"
  using assms
proof (induction t arbitrary: X rule: leaf_levels.induct)
  case (1 f c1 c2 X)
  let ?t = "Node f c1 c2"
  show ?case
  proof (cases "c1 = None")
    case True
    with "1.prems"(1) have "is_leaf ?t = Inr True" "\<And>r. leaf_for ?t r = Some ?t"
      using is_leaf_inv[of ?t] leaf_for_leaf[of ?t] by simp_all
    then show ?thesis
      by (simp add: routed_entry_def del: leaf_for.simps)
  next
    case False
    with "1.prems"(1) obtain a b normal og where t: "c1 = Some a" "c2 = Some b"
      "best_hyperplane_normal f = Some normal" "best_hyperplane_origin f = Some og"
      "leaf_inv a" "leaf_inv b"
      by (auto simp: split_consistent_def)
    have lf: "is_leaf ?t = Inr False"
      using is_leaf_inv[OF "1.prems"(1)] False by simp
    from "1.prems"(2) t have len: "shape1 X = length normal" "length og = length normal"
      and da: "dims_ok (shape1 X) a" and db: "dims_ok (shape1 X) b"
      by simp_all
    define ps where "ps = map (\<lambda>r. signed_distance r normal og) (rows X)"
    define n where "n = length (rows X)"
    define lt where "lt = where_lt0 ps"
    define ge where "ge = where_ge0 ps"
    define X1 where "X1 = X\<lparr>rows := map ((!) (rows X)) lt\<rparr>"
    define X2 where "X2 = X\<lparr>rows := map ((!) (rows X)) ge\<rparr>"
    define z where "z = replicate n (Finite 0)"
    have lps: "length ps = n" by (simp add: ps_def n_def)
    have n0: "shape0 X = n" by (simp add: shape0_def n_def)
    have idx: "compute_child1_and_child2_indices ?t X = Inr (lt, ge)"
      by (simp add: compute_child1_and_child2_indices_def t projections_ok[OF len] ps_def lt_def ge_def)
    have rng: "list_all (\<lambda>i. i < n) lt" "list_all (\<lambda>i. i < n) ge"
      using where_in_range[of ps] by (simp_all add: lt_def ge_def lps)
    have dist: "distinct lt" "distinct ge"
      by (simp_all add: lt_def ge_def distinct_where)
    have iX1: "index_rows X lt = Inr X1" and iX2: "index_rows X ge = Inr X2"
      using rng by (simp_all add: index_rows_def index_by_def n_def X1_def X2_def)
    have zc: "create_merged_predictions_array X = z"
      by (simp add: create_merged_predictions_array_def shape0_def n_def z_def)
    have mem: "\<And>j. j < n \<Longrightarrow> (j \<in> set lt) = flt0 (ps ! j)" "\<And>j. j < n \<Longrightarrow> (j \<in> set ge) = fge0 (ps ! j)"
      by (auto simp: lt_def ge_def set_where_lt0 set_where_ge0 lps)
    have psj: "\<And>j. j < n \<Longrightarrow> ps ! j = signed_distance (rows X ! j) normal og"
      by (simp add: ps_def n_def)

    from "1.IH"(1)[OF t(1,2) t(5), of X1] da obtain ra where
      pa: "predict_rec h a X1 = Inr ra" and
      qa: "case ra of
             None \<Rightarrow> child1 a \<noteq> None \<and> (\<forall>k<shape0 X1. leaf_for a (rows X1 ! k) = None)
           | Some p \<Rightarrow> length p = shape0 X1 \<and> (\<forall>k<shape0 X1. routed_entry h a (rows X1 ! k) (p ! k))"
      by (auto simp: X1_def)
    from "1.IH"(2)[OF t(1,2) t(6), of X2] db obtain rb where
      pb: "predict_rec h b X2 = Inr rb" and
      qb: "case rb of
             None \<Rightarrow> child1 b \<noteq> None \<and> (\<forall>k<shape0 X2. leaf_for b (rows X2 ! k) = None)
           | Some p \<Rightarrow> length p = shape0 X2 \<and> (\<forall>k<shape0 X2. routed_entry h b (rows X2 ! k) (p ! k))"
      by (auto simp: X2_def)
    have rX: "rows X1 = map ((!) (rows X)) lt" "rows X2 = map ((!) (rows X)) ge"
      by (simp_all add: X1_def X2_def)
    note ea = child_entries[OF qa rX(1)]
    note eb = child_entries[OF qb rX(2)]

    from assign_at_spec[of z lt ra] rng(1) dist(1) ea(1) obtain m1 where
      a1: "assign_at z lt ra = Inr m1" and l1: "length m1 = n"
      and o1: "\<And>j. j \<notin> set lt \<Longrightarrow> m1 ! j = z ! j"
      and i1: "\<And>k. k < length lt \<Longrightarrow> m1 ! (lt ! k) = (case ra of None \<Rightarrow> NaN | Some v \<Rightarrow> v ! k)"
      by (auto simp: z_def)
    from assign_at_spec[of m1 ge rb] rng(2) dist(2) eb(1) l1 obtain m2 where
      a2: "assign_at m1 ge rb = Inr m2" and l2: "length m2 = n"
      and o2: "\<And>j. j \<notin> set ge \<Longrightarrow> m2 ! j = m1 ! j"
      and i2: "\<And>k. k < length ge \<Longrightarrow> m2 ! (ge ! k) = (case rb of None \<Rightarrow> NaN | Some v \<Rightarrow> v ! k)"
      by auto
    have m1z: "lt = [] \<Longrightarrow> m1 = z"
      using l1 o1 by (intro nth_equalityI) (simp_all add: z_def)
    have m2m1: "ge = [] \<Longrightarrow> m2 = m1"
      using l1 l2 o2 by (intro nth_equalityI) simp_all

    note u = lf[unfolded t(1,2)] idx[unfolded t(1,2)]
    have res: "predict_rec h ?t X = Inr (if lt = [] \<and> ge = [] then None else Some m2)"
    proof (cases "lt = []")
      case ltE: True
      show ?thesis
      proof (cases "ge = []")
        case True
        with ltE show ?thesis unfolding t(1,2) by (simp add: u)
      next
        case False
        with ltE a2 m1z show ?thesis unfolding t(1,2) by (simp add: u iX2 pb zc)
      qed
    next
      case ltN: False
      show ?thesis
      proof (cases "ge = []")
        case True
        with ltN m2m1 show ?thesis unfolding t(1,2) by (simp add: u iX1 pa zc a1)
      next
        case False
        with ltN show ?thesis unfolding t(1,2) by (simp add: u iX1 iX2 pa pb zc a1 a2)
      qed
    qed

    have route: "\<And>r. leaf_for ?t r =
           (if flt0 (signed_distance r normal og) then leaf_for a r
            else if fge0 (signed_distance r normal og) then leaf_for b r else None)"
      unfolding t(1,2) by (rule leaf_for_internal[OF t(3,4)])
    have entry: "routed_entry h ?t (rows X ! j) (m2 ! j)" if j: "j < n" for j
    proof (cases "j \<in> set ge")
      case True
      then obtain k where k: "k < length ge" "ge ! k = j" by (auto simp: in_set_conv_nth)
      from True mem(2)[OF j] have g: "fge0 (ps ! j)" by simp
      then have ng: "\<not> flt0 (ps ! j)" using flt0_not_fge0 by blast
      from eb(2)[OF k(1)] i2[OF k(1)] k(2)
      have "routed_entry h b (rows X ! j) (m2 ! j)" by simp
      then show ?thesis
        using g ng by (simp add: routed_entry_def route psj[OF j, symmetric] del: leaf_for.simps)
    next
      case nge: False
      with mem(2)[OF j] have g: "\<not> fge0 (ps ! j)" by simp
      show ?thesis
      proof (cases "j \<in> set lt")
        case True
        then obtain k where k: "k < length lt" "lt ! k = j" by (auto simp: in_set_conv_nth)
        from True mem(1)[OF j] have l: "flt0 (ps ! j)" by simp
        from ea(2)[OF k(1)] i1[OF k(1)] k(2) o2[OF nge]
        have "routed_entry h a (rows X ! j) (m2 ! j)" by simp
        then show ?thesis
          using l by (simp add: routed_entry_def route psj[OF j, symmetric] del: leaf_for.simps)
      next
        case False
        with mem(1)[OF j] have l: "\<not> flt0 (ps ! j)" by simp
        have "m2 ! j = Finite 0" using o2[OF nge] o1[OF False] j by (simp add: z_def)
        then show ?thesis
          using l g by (simp add: routed_entry_def route psj[OF j, symmetric] del: leaf_for.simps)
      qed
    qed
    have none: "leaf_for ?t (rows X ! j) = None" if e: "lt = []" "ge = []" and j: "j < n" for j
    proof -
      from mem(1)[OF j] mem(2)[OF j] e have "\<not> flt0 (ps ! j)" "\<not> fge0 (ps ! j)" by simp_all
      then show ?thesis by (simp add: route psj[OF j, symmetric] del: leaf_for.simps)
    qed
    show ?thesis
      using res l2 entry none by (auto simp: n0 t(1) simp del: leaf_for.simps predict_rec.simps)
  qed
qed


lemma predict_fitted:
  assumes "leaf_inv t" "dims_ok (shape1 X) t" "n_dim (attrs t) = Some (shape1 X)"
  shows "\<exists>ps. predict h t X = (Inr ps, t) \<and> length ps = shape0 X \<and>
              (\<forall>i<shape0 X. routed_entry h t (rows X ! i) (ps ! i))"
proof -
  have p: "posterior (attrs t) \<noteq> None" using assms(1) by (simp add: leaf_inv_alt)
  have e: "ensure_is_fitted t (Some (shape1 X)) = None"
    using p assms(3) by (simp add: ensure_is_fitted_def)
  from predict_rec_routes[OF assms(1,2), of h] obtain r where
    r: "predict_rec h t X = Inr r" and
    q: "case r of
          None \<Rightarrow> child1 t \<noteq> None \<and> (\<forall>i<shape0 X. leaf_for t (rows X ! i) = None)
        | Some ps \<Rightarrow> length ps = shape0 X \<and> (\<forall>i<shape0 X. routed_entry h t (rows X ! i) (ps ! i))"
    by blast
  show ?thesis
  proof (cases r)
    case None
    with r q show ?thesis
      by (simp add: predict_def e create_merged_predictions_array_def routed_entry_def)
  next
    case (Some ps)
    with r q show ?thesis by (simp add: predict_def e)
  qed
qed

text \<open>When every row is routed to a leaf, the result is the list of the leaf predictions.\<close>

lemma routed_entries_map:
  assumes "length ps = shape0 X" "\<forall>i<shape0 X. routed_entry h t (rows X ! i) (ps ! i)"
    and "\<forall>r\<in>set (rows X). leaf_for t r \<noteq> None"
  shows "ps = map (\<lambda>r. Finite (predict_leaf h (the (leaf_for t r)))) (rows X)"
proof (rule nth_equalityI)
  show "length ps = length (map (\<lambda>r. Finite (predict_leaf h (the (leaf_for t r)))) (rows X))"
    using assms(1) by (simp add: shape0_def)
next
  fix i assume "i < length ps"
  then have i: "i < shape0 X" using assms(1) by simp
  then have "rows X ! i \<in> set (rows X)" by (simp add: shape0_def)
  with assms(3) obtain l where "leaf_for t (rows X ! i) = Some l" by auto
  with assms(2) i show "ps ! i = map (\<lambda>r. Finite (predict_leaf h (the (leaf_for t r)))) (rows X) ! i"
    by (auto simp: routed_entry_def shape0_def)
qed

lemma predict_fitted_routed:
  assumes "leaf_inv t" "dims_ok (shape1 X) t" "n_dim (attrs t) = Some (shape1 X)"
    and "\<forall>r\<in>set (rows X). leaf_for t r \<noteq> None"
  shows "predict h t X = (Inr (map (\<lambda>r. Finite (predict_leaf h (the (leaf_for t r)))) (rows X)), t)"
  using predict_fitted[OF assms(1-3), of h] routed_entries_map[OF _ _ assms(4), of _ h]
  by auto













text \<open>
  C9. On a node that is unfitted, or fitted, \<^verbatim>\<open>predict(X)\<close> raises the value error for
  an untrained model when the posterior is absent, the value error naming \<^verbatim>\<open>n_dim\<close> and
  \<^verbatim>\<open>X.shape[1]\<close> when these differ, and returns predictions otherwise, one per row: the
  leaf predictions, when every row is routed to a leaf. The node is unchanged in every
  case.
\<close>

theorem predict_raises_value_error_iff:
  assumes "posterior (attrs t) \<noteq> None \<longrightarrow> n_dim (attrs t) = Some (shape1 X) \<longrightarrow>
             leaf_inv t \<and> dims_ok (shape1 X) t"
  shows "\<exists>ps. predict h t X =
           (if posterior (attrs t) = None then Inl (ValueError Untrained)
            else if n_dim (attrs t) \<noteq> Some (shape1 X)
              then Inl (ValueError (BadInputDimensions (n_dim (attrs t)) (shape1 X)))
            else Inr ps,
            t) \<and>
           (posterior (attrs t) \<noteq> None \<and> n_dim (attrs t) = Some (shape1 X) \<longrightarrow>
              length ps = shape0 X \<and>
              (\<forall>i<shape0 X. routed_entry h t (rows X ! i) (ps ! i)) \<and>
              ((\<forall>r\<in>set (rows X). leaf_for t r \<noteq> None) \<longrightarrow>
                 ps = map (\<lambda>r. Finite (predict_leaf h (the (leaf_for t r)))) (rows X)))"
proof (cases "posterior (attrs t) = None \<or> n_dim (attrs t) \<noteq> Some (shape1 X)")
  case True
  then show ?thesis by (auto simp: predict_def ensure_is_fitted_def)
next
  case False
  with assms have f: "leaf_inv t" "dims_ok (shape1 X) t" "n_dim (attrs t) = Some (shape1 X)"
    by simp_all
  from predict_fitted[OF f, of h] obtain ps where
    ps: "predict h t X = (Inr ps, t)" "length ps = shape0 X"
    "\<forall>i<shape0 X. routed_entry h t (rows X ! i) (ps ! i)"
    by blast
  from routed_entries_map[OF ps(2,3)] ps False show ?thesis
    by (intro exI[of _ ps]) simp
qed

theorem predict_raises_value_error_iff_witness:
  "posterior (attrs ex_root) = None \<and>
   predict ex_hooks ex_root ex_X = (Inl (ValueError Untrained), ex_root) \<and>
   posterior (attrs ex_tree) \<noteq> None \<and> n_dim (attrs ex_tree) \<noteq> Some (shape1 ex_X_wide) \<and>
   predict ex_hooks ex_tree ex_X_wide =
     (Inl (ValueError (BadInputDimensions (Some 1) 2)), ex_tree) \<and>
   n_dim (attrs ex_tree) = Some (shape1 ex_X) \<and> leaf_inv ex_tree \<and> dims_ok (shape1 ex_X) ex_tree \<and>
   predict ex_hooks ex_tree ex_X = (Inr [Finite 0, Finite 1, Finite 1], ex_tree)"
proof -
  have a: "posterior (attrs ex_root) = None" by code_simp
  have b: "posterior (attrs ex_tree) \<noteq> None" "n_dim (attrs ex_tree) \<noteq> Some (shape1 ex_X_wide)"
    "n_dim (attrs ex_tree) = Some 1" "shape1 ex_X_wide = 2"
    by (simp_all add: ex_tree_def ex_X_wide_def)
  have c: "n_dim (attrs ex_tree) = Some (shape1 ex_X)" "leaf_inv ex_tree" "dims_ok (shape1 ex_X) ex_tree"
    by code_simp+
  have r: "map (\<lambda>r. Finite (predict_leaf ex_hooks (the (leaf_for ex_tree r)))) (rows ex_X)
             = [Finite 0, Finite 1, Finite 1]"
    "\<forall>r\<in>set (rows ex_X). leaf_for ex_tree r \<noteq> None"
    by code_simp+
  have 1: "predict ex_hooks ex_root ex_X = (Inl (ValueError Untrained), ex_root)"
    using predict_raises_value_error_iff[of ex_root ex_X ex_hooks] a by simp
  have 2: "predict ex_hooks ex_tree ex_X_wide =
     (Inl (ValueError (BadInputDimensions (Some 1) 2)), ex_tree)"
    using predict_raises_value_error_iff[of ex_tree ex_X_wide ex_hooks] b by simp
  have 3: "predict ex_hooks ex_tree ex_X = (Inr [Finite 0, Finite 1, Finite 1], ex_tree)"
    using predict_raises_value_error_iff[of ex_tree ex_X ex_hooks] b(1) c r by auto
  from a b c 1 2 3 show ?thesis by simp
qed

subsection \<open>Pruning is bottom-up pruning\<close>

lemma leaf_inv_collapse: "posterior (attrs s) \<noteq> None \<Longrightarrow> leaf_inv (collapse s)"
  by (simp add: collapse_def split_consistent_def)

lemma prune_rec_leaf:
  assumes "leaf_inv t" "child1 t = None"
  shows "prune_rec h t = Inr t"
  using is_leaf_inv[OF assms(1)] depth_and_leaves_inv[OF assms(1)] assms(2)
  by (subst prune_rec.simps) simp

lemma children_are_leaves_inv:
  assumes "child1 s = Some a" "child2 s = Some b" "leaf_inv a" "leaf_inv b"
  shows "children_are_leaves s = Inr (child1 a = None \<and> child1 b = None)"
  using is_leaf_inv[OF assms(3)] is_leaf_inv[OF assms(4)] assms(1,2)
  by (cases "child1 a = None") (simp_all add: children_are_leaves_def)

lemma leaf_inv_children:
  assumes "leaf_inv s" "child1 s = Some a" "child2 s = Some b"
  shows "leaf_inv a" "leaf_inv b"
  using assms by (cases s; simp)+

text \<open>One run of pruning on a node whose children are already fixed points.\<close>

lemma prune_rec_pruned_children:
  assumes s: "leaf_inv s" "child1 s = Some a" "child2 s = Some b"
    and fa: "prune_rec h a = Inr a" and fb: "prune_rec h b = Inr b"
  shows "prune_rec h s =
           Inr (if child1 a = None \<and> child1 b = None \<and> predict_leaf h a = predict_leaf h b
                then collapse s else s)"
proof -
  note ch = leaf_inv_children[OF s]
  have dl: "depth_and_leaves s = Inr (Max (set (leaf_levels s)), length (leaf_levels s))"
    by (rule depth_and_leaves_inv[OF s(1)])
  have lf: "is_leaf s = Inr False" using is_leaf_inv[OF s(1)] s(2) by simp
  have cal: "children_are_leaves s = Inr (child1 a = None \<and> child1 b = None)"
    by (rule children_are_leaves_inv[OF s(2,3) ch])
  have post: "posterior (attrs s) \<noteq> None" using s(1) by (simp add: leaf_inv_alt)
  have lc: "leaf_inv (collapse s)" by (rule leaf_inv_collapse[OF post])
  have pc: "prune_rec h (collapse s) = Inr (collapse s)"
    by (rule prune_rec_leaf[OF lc]) (simp add: collapse_def)
  obtain dc where dc: "depth_and_leaves (collapse s) = Inr dc"
    using depth_and_leaves_inv[OF lc] by simp
  have rb: "Node (attrs s) (Some a) (Some b) = s" by (rule node_rebuild[OF s(2,3)])
  show ?thesis
  proof (cases "child1 a = None \<and> child1 b = None")
    case True
    with cal have "children_are_leaves s = Inr True" by simp
    with True show ?thesis
      by (subst prune_rec.simps) (simp add: dl lf s(2,3) pc dc)
  next
    case False
    with cal have "children_are_leaves s = Inr False" by simp
    with False show ?thesis
      by (subst prune_rec.simps) (auto simp add: dl lf s(2,3) fa fb rb)
  qed
qed

lemma bottom_up_prune_leaf: "child1 t = None \<Longrightarrow> bottom_up_prune h t = t"
  by (cases t) simp

lemma bottom_up_prune_attrs:
  "posterior (attrs (bottom_up_prune h t)) = posterior (attrs t)"
  "n_dim (attrs (bottom_up_prune h t)) = n_dim (attrs t)"
  "level (attrs (bottom_up_prune h t)) = level (attrs t)"
  by (cases t; simp add: Let_def collapse_def split: option.splits)+

lemma leaf_inv_bottom_up_prune: "leaf_inv t \<Longrightarrow> leaf_inv (bottom_up_prune h t)"
proof (induction t rule: leaf_levels.induct)
  case (1 f c1 c2)
  show ?case
  proof (cases "c1 = None")
    case True
    with 1 show ?thesis by simp
  next
    case False
    with "1.prems" obtain a b where t: "c1 = Some a" "c2 = Some b" "leaf_inv a" "leaf_inv b"
      and n: "best_hyperplane_normal f \<noteq> None" "best_hyperplane_origin f \<noteq> None" "posterior f \<noteq> None"
      by (auto simp: split_consistent_def)
    from "1.IH"(1)[OF t(1,2,3)] "1.IH"(2)[OF t(1,2,4)] n show ?thesis
      by (auto simp add: t Let_def collapse_def split_consistent_def)
  qed
qed

lemma prune_rec_bottom_up:
  "leaf_inv t \<Longrightarrow>
   prune_rec h t = Inr (bottom_up_prune h t) \<and>
   prune_rec h (bottom_up_prune h t) = Inr (bottom_up_prune h t)"
proof (induction t rule: leaf_levels.induct)
  case (1 f c1 c2)
  let ?t = "Node f c1 c2"
  show ?case
  proof (cases "c1 = None")
    case True
    with "1.prems" show ?thesis using prune_rec_leaf[of ?t h] by simp
  next
    case False
    with "1.prems" obtain a b where t: "c1 = Some a" "c2 = Some b" "leaf_inv a" "leaf_inv b"
      by (auto simp: split_consistent_def)
    define a' where "a' = bottom_up_prune h a"
    define b' where "b' = bottom_up_prune h b"
    define s where "s = Node f (Some a') (Some b')"
    define c where "c \<longleftrightarrow> child1 a' = None \<and> child1 b' = None \<and> predict_leaf h a' = predict_leaf h b'"
    from "1.IH"(1)[OF t(1,2,3)] have pa: "prune_rec h a = Inr a'" "prune_rec h a' = Inr a'"
      by (simp_all add: a'_def)
    from "1.IH"(2)[OF t(1,2,4)] have pb: "prune_rec h b = Inr b'" "prune_rec h b' = Inr b'"
      by (simp_all add: b'_def)
    have la: "leaf_inv a'" "leaf_inv b'"
      using t(3,4) by (simp_all add: a'_def b'_def leaf_inv_bottom_up_prune)
    have ls: "leaf_inv s"
      using "1.prems" la by (auto simp add: s_def t split_consistent_def)
    have r: "bottom_up_prune h ?t = (if c then collapse s else s)"
      by (simp add: t a'_def b'_def s_def c_def Let_def)
    have Q: "prune_rec h s = Inr (if c then collapse s else s)"
      using prune_rec_pruned_children[OF ls _ _ pa(2) pb(2)] by (simp add: s_def c_def)
    have post: "posterior (attrs s) \<noteq> None" using ls by (simp add: leaf_inv_alt)
    have pc: "prune_rec h (collapse s) = Inr (collapse s)"
      by (rule prune_rec_leaf[OF leaf_inv_collapse[OF post]]) (simp add: collapse_def)
    have P2: "prune_rec h (bottom_up_prune h ?t) = Inr (bottom_up_prune h ?t)"
      unfolding r using Q pc by simp
    have P1: "prune_rec h ?t = Inr (bottom_up_prune h ?t)"
    proof (cases "child1 a = None \<and> child1 b = None")
      case True
      then have "a' = a" "b' = b" by (simp_all add: a'_def b'_def bottom_up_prune_leaf)
      then have "s = ?t" by (simp add: s_def t)
      with Q r show ?thesis by simp
    next
      case nb: False
      define tt where "tt = ?t"
      have tt: "child1 tt = Some a" "child2 tt = Some b" "attrs tt = f" "leaf_inv tt"
        using "1.prems" by (simp_all add: tt_def t)
      define n0 where "n0 = (Max (set (leaf_levels tt)), length (leaf_levels tt))"
      define n1 where "n1 = (Max (set (leaf_levels s)), length (leaf_levels s))"
      have dl: "depth_and_leaves tt = Inr n0"
        unfolding n0_def by (rule depth_and_leaves_inv[OF tt(4)])
      have dls: "depth_and_leaves s = Inr n1"
        unfolding n1_def by (rule depth_and_leaves_inv[OF ls])
      have lf: "is_leaf tt = Inr False" using is_leaf_inv[OF tt(4)] tt(1) by simp
      have cal: "children_are_leaves tt = Inr False"
        using children_are_leaves_inv[OF tt(1,2) t(3,4)] nb by simp
      have same: "\<not> c" if e: "n0 = n1"
      proof
        assume c
        then have "length (leaf_levels s) = 2"
          by (cases a'; cases b') (simp add: s_def c_def)
        moreover have "3 \<le> length (leaf_levels tt)"
          using nb leaf_levels_internal[OF t(3)] leaf_levels_internal[OF t(4)]
            leaf_levels_nonempty[of a] leaf_levels_nonempty[of b]
          by (cases "leaf_levels a"; cases "leaf_levels b"; auto simp: tt_def t)
        ultimately show False using e by (simp add: n0_def n1_def)
      qed
      have pass: "(case children_are_leaves tt of
                Inl e \<Rightarrow> Inl e
              | Inr True \<Rightarrow>
                  (case child1 tt of
                     None \<Rightarrow> Inl AttributeError
                   | Some c1 \<Rightarrow>
                       (case child2 tt of
                          None \<Rightarrow> Inl AttributeError
                        | Some c2 \<Rightarrow>
                            if predict_leaf h c1 = predict_leaf h c2 then Inr (collapse tt)
                            else Inr tt))
              | Inr False \<Rightarrow>
                  (case child1 tt of
                     None \<Rightarrow> Inl AttributeError
                   | Some c1 \<Rightarrow>
                       (case prune_rec h c1 of
                          Inl e \<Rightarrow> Inl e
                        | Inr c1' \<Rightarrow>
                            (case child2 tt of
                               None \<Rightarrow> Inl AttributeError
                             | Some c2 \<Rightarrow>
                                 (case prune_rec h c2 of
                                    Inl e \<Rightarrow> Inl e
                                  | Inr c2' \<Rightarrow> Inr (Node (attrs tt) (Some c1') (Some c2'))))))) = Inr s"
        by (simp add: cal tt pa pb s_def)
      have "prune_rec h tt = (if n0 \<noteq> n1 then prune_rec h s else Inr s)"
        by (subst prune_rec.simps) (simp add: dl lf pass dls)
      also have "\<dots> = Inr (if c then collapse s else s)"
        using Q same by auto
      finally show ?thesis using r by (simp add: tt_def)
    qed
    from P1 P2 show ?thesis by simp
  qed
qed

lemma dims_ok_bottom_up_prune: "dims_ok d t \<Longrightarrow> dims_ok d (bottom_up_prune h t)"
proof (induction t rule: leaf_levels.induct)
  case (1 f c1 c2)
  show ?case
  proof (cases c1)
    case None
    with 1 show ?thesis by simp
  next
    case a: (Some a)
    show ?thesis
    proof (cases c2)
      case None
      with 1 a show ?thesis by simp
    next
      case b: (Some b)
      from "1.IH"(1)[OF a b] "1.IH"(2)[OF a b] "1.prems" show ?thesis
        by (simp add: a b Let_def collapse_def)
    qed
  qed
qed

lemma leaves_bottom_up_prune:
  "length (leaf_levels (bottom_up_prune h t)) \<le> length (leaf_levels t)"
proof (induction t rule: leaf_levels.induct)
  case (1 f c1 c2)
  show ?case
  proof (cases c1)
    case None
    then show ?thesis by simp
  next
    case a: (Some a)
    show ?thesis
    proof (cases c2)
      case None
      with a show ?thesis by simp
    next
      case b: (Some b)
      have "1 \<le> length (leaf_levels a)" "1 \<le> length (leaf_levels b)"
        using leaf_levels_nonempty[of a] leaf_levels_nonempty[of b] by (simp_all add: Suc_le_eq)
      with "1.IH"(1)[OF a b] "1.IH"(2)[OF a b] show ?thesis
        by (simp add: a b Let_def collapse_def)
    qed
  qed
qed

lemma leaf_for_bottom_up_prune:
  assumes "leaf_inv t" "collapses_agree h t" "leaf_for t r = Some l"
  shows "\<exists>l'. leaf_for (bottom_up_prune h t) r = Some l' \<and> predict_leaf h l' = predict_leaf h l"
  using assms
proof (induction t arbitrary: l rule: leaf_levels.induct)
  case (1 f c1 c2)
  let ?t = "Node f c1 c2"
  show ?case
  proof (cases "c1 = None")
    case True
    with "1.prems"(3) show ?thesis by simp
  next
    case False
    with "1.prems"(1) obtain a b normal og where t: "c1 = Some a" "c2 = Some b"
      "best_hyperplane_normal f = Some normal" "best_hyperplane_origin f = Some og"
      "leaf_inv a" "leaf_inv b"
      by (auto simp: split_consistent_def)
    define a' where "a' = bottom_up_prune h a"
    define b' where "b' = bottom_up_prune h b"
    define s where "s = Node f (Some a') (Some b')"
    define c where "c \<longleftrightarrow> child1 a' = None \<and> child1 b' = None \<and> predict_leaf h a' = predict_leaf h b'"
    define d where "d = signed_distance r normal og"
    have ag: "collapses_agree h a" "collapses_agree h b"
      "c \<Longrightarrow> predict_leaf h (collapse s) = predict_leaf h a'"
      using "1.prems"(2) by (simp_all add: t Let_def a'_def b'_def s_def c_def)
    have IHa: "\<And>l. leaf_for a r = Some l \<Longrightarrow>
                 \<exists>l'. leaf_for a' r = Some l' \<and> predict_leaf h l' = predict_leaf h l"
      using "1.IH"(1)[OF t(1,2,5) ag(1)] by (simp add: a'_def)
    have IHb: "\<And>l. leaf_for b r = Some l \<Longrightarrow>
                 \<exists>l'. leaf_for b' r = Some l' \<and> predict_leaf h l' = predict_leaf h l"
      using "1.IH"(2)[OF t(1,2,6) ag(2)] by (simp add: b'_def)
    have la: "leaf_inv a'" "leaf_inv b'"
      using t(5,6) by (simp_all add: a'_def b'_def leaf_inv_bottom_up_prune)
    have r: "bottom_up_prune h ?t = (if c then collapse s else s)"
      by (simp add: t a'_def b'_def s_def c_def Let_def)
    have orig: "leaf_for ?t r =
        (if flt0 d then leaf_for a r else if fge0 d then leaf_for b r else None)"
      unfolding t(1,2) d_def by (rule leaf_for_internal[OF t(3,4)])
    from "1.prems"(3) orig have side: "(flt0 d \<and> leaf_for a r = Some l) \<or>
        (\<not> flt0 d \<and> fge0 d \<and> leaf_for b r = Some l)"
      by (auto split: if_splits)
    show ?thesis
    proof (cases c)
      case True
      then have lf: "leaf_for a' r = Some a'" "leaf_for b' r = Some b'"
        "predict_leaf h a' = predict_leaf h b'"
        using la by (simp_all add: c_def leaf_for_leaf)
      have "leaf_for (collapse s) r = Some (collapse s)" by (simp add: collapse_def)
      moreover have "predict_leaf h (collapse s) = predict_leaf h l"
        using side IHa[of l] IHb[of l] lf ag(3)[OF True] by auto
      ultimately show ?thesis
        unfolding r using True by simp
    next
      case False
      have "leaf_for s r =
          (if flt0 d then leaf_for a' r else if fge0 d then leaf_for b' r else None)"
        unfolding s_def d_def by (rule leaf_for_internal[OF t(3,4)])
      with False side IHa[of l] IHb[of l] show ?thesis
        unfolding r by auto
    qed
  qed
qed

lemma predict_bottom_up_prune:
  assumes "leaf_inv t" "collapses_agree h t" "\<forall>d. n_dim (attrs t) = Some d \<longrightarrow> dims_ok d t"
    and routed: "\<forall>r\<in>set (rows X). leaf_for t r \<noteq> None"
  shows "fst (predict h (bottom_up_prune h t) X) = fst (predict h t X)"
proof (cases "n_dim (attrs t) = Some (shape1 X)")
  case True
  with assms(3) have d: "dims_ok (shape1 X) t" by simp
  have same: "leaf_for (bottom_up_prune h t) r \<noteq> None \<and>
      predict_leaf h (the (leaf_for (bottom_up_prune h t) r)) = predict_leaf h (the (leaf_for t r))"
    if "r \<in> set (rows X)" for r
  proof -
    from routed that obtain l where l: "leaf_for t r = Some l" by auto
    from leaf_for_bottom_up_prune[OF assms(1,2) l] l show ?thesis by auto
  qed
  have "predict h t X = (Inr (map (\<lambda>r. Finite (predict_leaf h (the (leaf_for t r)))) (rows X)), t)"
    by (rule predict_fitted_routed[OF assms(1) d True routed])
  moreover have "predict h (bottom_up_prune h t) X =
      (Inr (map (\<lambda>r. Finite (predict_leaf h (the (leaf_for (bottom_up_prune h t) r)))) (rows X)),
       bottom_up_prune h t)"
    by (rule predict_fitted_routed[OF leaf_inv_bottom_up_prune[OF assms(1)]
          dims_ok_bottom_up_prune[OF d]])
       (use same in \<open>simp_all add: bottom_up_prune_attrs True\<close>)
  ultimately show ?thesis
    using same by (simp cong: map_cong)
next
  case False
  have p: "posterior (attrs t) \<noteq> None" using assms(1) by (simp add: leaf_inv_alt)
  with False show ?thesis
    by (auto simp: predict_def ensure_is_fitted_def bottom_up_prune_attrs)
qed

lemma fit_leaf_inv:
  assumes "children_inv self" "fit h self X y delta prune = Inr t"
  shows "leaf_inv t"
proof -
  from assms(2) obtain t0 where f: "fit_rec h self X y delta = Inr t0"
    and p: "if prune then prune_rec h t0 = Inr t else t = t0"
    by (auto simp: fit_def split: option.splits if_splits sum.splits)
  from fit_rec_inv[OF assms(1) f] have l: "leaf_inv t0" by simp
  show ?thesis
  proof (cases prune)
    case True
    with p prune_rec_bottom_up[OF l, of h] have "t = bottom_up_prune h t0" by simp
    with l show ?thesis by (simp add: leaf_inv_bottom_up_prune)
  next
    case False
    with p l show ?thesis by simp
  qed
qed

text \<open>
  The trees the claims call fitted: \<^verbatim>\<open>fit\<close> on a fresh node returns a tree with the
  leaf invariant whose stored hyperplanes have the dimension of the training data.
\<close>

lemma new_node_ready: "children_inv (new_node pp pr reg lvl)" "dims_ok d (new_node pp pr reg lvl)"
  by (simp_all add: children_inv_def split_consistent_def new_node_def)

lemma fit_establishes_invariants:
  assumes "children_inv self" "dims_ok (shape1 X) self" "fit h self X y delta prune = Inr t"
  shows "leaf_inv t \<and> dims_ok (shape1 X) t \<and> n_dim (attrs t) = Some (shape1 X)"
proof -
  from assms(3) obtain t0 where f: "fit_rec h self X y delta = Inr t0"
    and p: "if prune then prune_rec h t0 = Inr t else t = t0"
    by (auto simp: fit_def split: option.splits if_splits sum.splits)
  from fit_rec_inv[OF assms(1) f] assms(2)
  have l: "leaf_inv t0" "dims_ok (shape1 X) t0" "n_dim (attrs t0) = Some (shape1 X)" by simp_all
  show ?thesis
  proof (cases prune)
    case True
    with p prune_rec_bottom_up[OF l(1), of h] have "t = bottom_up_prune h t0" by simp
    with l show ?thesis
      by (simp add: leaf_inv_bottom_up_prune dims_ok_bottom_up_prune bottom_up_prune_attrs)
  next
    case False
    with p l show ?thesis by simp
  qed
qed

text \<open>
  An optimizer that returns hyperplanes of numbers only leaves hyperplanes of numbers in
  the tree, so that every row of numbers is routed to a leaf.
\<close>

lemma numeric_planes_attrs:
  "numeric_planes t \<longleftrightarrow>
     (case best_hyperplane_normal (attrs t) of None \<Rightarrow> True | Some n \<Rightarrow> list_all is_number n) \<and>
     (case best_hyperplane_origin (attrs t) of None \<Rightarrow> True | Some og \<Rightarrow> list_all is_number og) \<and>
     (case child1 t of None \<Rightarrow> True | Some a \<Rightarrow> numeric_planes a) \<and>
     (case child2 t of None \<Rightarrow> True | Some b \<Rightarrow> numeric_planes b)"
  by (cases t) simp

lemma numeric_planes_new: "numeric_planes (child_type self p)"
  by (simp add: child_type_def new_node_def)

lemma numeric_planes_finish: "numeric_planes self \<Longrightarrow> numeric_planes (finish_fit h self X y)"
  by (simp add: numeric_planes_attrs[of "finish_fit h self X y"] numeric_planes_attrs[of self])

lemma numeric_planes_set_posterior: "numeric_planes c \<Longrightarrow> numeric_planes (set_posterior c p)"
  by (simp add: set_posterior_def numeric_planes_attrs[of c])

lemma fit_rec_numeric_planes:
  assumes sn: "\<And>s X y n. opt_best_hyperplane_normal (solve h s X y) = Some n \<Longrightarrow> list_all is_number n"
    and so: "\<And>s X y og. opt_best_hyperplane_origin (solve h s X y) = Some og \<Longrightarrow> list_all is_number og"
    and "numeric_planes self" "fit_rec h self X y delta = Inr t"
  shows "numeric_planes t"
  using assms(3,4)
proof (induction "shape0 X" arbitrary: self X y t rule: less_induct)
  case less
  show ?case
  proof (cases "opt_best_hyperplane_normal (solve h self X y)")
    case None
    from less.prems(2)[unfolded fit_rec_no_hyperplane[OF None]] less.prems(1)
    show ?thesis by (auto simp: numeric_planes_finish)
  next
    case (Some normal)
    show ?thesis
    proof (cases "projections X normal (opt_best_hyperplane_origin (solve h self X y))")
      case (Inl e)
      from less.prems(2) fit_rec_proj_error[OF Some Inl] show ?thesis by simp
    next
      case (Inr ps)
      show ?thesis
      proof (cases "where_lt0 ps = [] \<or> where_ge0 ps = []")
        case True
        from less.prems(2)[unfolded fit_rec_empty_side[OF Some Inr True]] less.prems(1)
        show ?thesis by (auto simp: numeric_planes_finish)
      next
        case False
        then have ne: "where_lt0 ps \<noteq> []" "where_ge0 ps \<noteq> []" by simp_all
        from Some Inr ne less.prems(2) obtain X1 X2 y1 y2 s c1 c2 where r:
          "index_rows X (where_lt0 ps) = Inr X1" "index_rows X (where_ge0 ps) = Inr X2"
          "index_by y (where_lt0 ps) = Inr y1" "index_by y (where_ge0 ps) = Inr y2"
          "s = with_children h self normal (opt_best_hyperplane_origin (solve h self X y)) y1 y2"
          "train_child h s (child_type self (compute_posterior h self y1 0)) X1 y1 delta = Inr c1"
          "train_child h (Node (attrs s) (Some c1) (child2 s))
             (child_type self (compute_posterior h self y2 0)) X2 y2 delta = Inr c2"
          "t = finish_fit h (Node (attrs s) (Some c1) (Some c2)) X y"
          by (rule fit_rec_split_result)
        from projections_Some[OF Inr] obtain og where
          og: "opt_best_hyperplane_origin (solve h self X y) = Some og"
          by blast
        have c1: "numeric_planes c1"
        proof (cases "shape0 X1 > 1")
          case True
          with r(6) have "fit_rec h (child_type self (compute_posterior h self y1 0)) X1 y1 delta = Inr c1"
            by (simp add: train_child_def)
          from less.hyps[OF fit_rec_smaller1[OF Inr ne r(1)] numeric_planes_new this]
          show ?thesis .
        next
          case False
          with r(6) show ?thesis
            by (auto simp: train_child_def numeric_planes_set_posterior numeric_planes_new)
        qed
        have c2: "numeric_planes c2"
        proof (cases "shape0 X2 > 1")
          case True
          with r(7) have "fit_rec h (child_type self (compute_posterior h self y2 0)) X2 y2 delta = Inr c2"
            by (simp add: train_child_def)
          from less.hyps[OF fit_rec_smaller2[OF Inr ne r(2)] numeric_planes_new this]
          show ?thesis .
        next
          case False
          with r(7) show ?thesis
            by (auto simp: train_child_def numeric_planes_set_posterior numeric_planes_new)
        qed
        have "numeric_planes (Node (attrs s) (Some c1) (Some c2))"
          using c1 c2 sn[OF Some] so[OF og] by (simp add: r(5) og)
        then show ?thesis
          by (simp add: r(8) numeric_planes_finish)
      qed
    qed
  qed
qed

lemma numeric_planes_bottom_up_prune: "numeric_planes t \<Longrightarrow> numeric_planes (bottom_up_prune h t)"
proof (induction t rule: leaf_levels.induct)
  case (1 f c1 c2)
  show ?case
  proof (cases c1)
    case None
    with 1 show ?thesis by simp
  next
    case a: (Some a)
    show ?thesis
    proof (cases c2)
      case None
      with 1 a show ?thesis by simp
    next
      case b: (Some b)
      from "1.IH"(1)[OF a b] "1.IH"(2)[OF a b] "1.prems" show ?thesis
        by (simp add: a b Let_def collapse_def)
    qed
  qed
qed

lemma fit_numeric_planes:
  assumes sn: "\<And>s X y n. opt_best_hyperplane_normal (solve h s X y) = Some n \<Longrightarrow> list_all is_number n"
    and so: "\<And>s X y og. opt_best_hyperplane_origin (solve h s X y) = Some og \<Longrightarrow> list_all is_number og"
    and "children_inv self" "numeric_planes self" "fit h self X y delta prune = Inr t"
  shows "numeric_planes t"
proof -
  from assms(5) obtain t0 where f: "fit_rec h self X y delta = Inr t0"
    and p: "if prune then prune_rec h t0 = Inr t else t = t0"
    by (auto simp: fit_def split: option.splits if_splits sum.splits)
  from fit_rec_numeric_planes[OF sn so assms(4) f] have n: "numeric_planes t0" by simp
  from fit_rec_inv[OF assms(3) f] have l: "leaf_inv t0" by simp
  show ?thesis
  proof (cases prune)
    case True
    with p prune_rec_bottom_up[OF l, of h] have "t = bottom_up_prune h t0" by simp
    with n show ?thesis by (simp add: numeric_planes_bottom_up_prune)
  next
    case False
    with p n show ?thesis by simp
  qed
qed

text \<open>
  C3. On every fitted node \<^verbatim>\<open>is_leaf()\<close> is true iff no normal and no origin are
  stored, iff both children are absent; the children are both present or both absent,
  and are fitted nodes themselves. \<^verbatim>\<open>_fit\<close>, \<^verbatim>\<open>fit\<close> and \<^verbatim>\<open>_prune\<close> return nodes with
  this invariant.
\<close>

theorem leaf_iff_no_split_iff_no_children:
  "(leaf_inv t \<longrightarrow>
      is_leaf t = Inr (best_hyperplane_normal (attrs t) = None \<and>
                       best_hyperplane_origin (attrs t) = None) \<and>
      ((best_hyperplane_normal (attrs t) = None \<and> best_hyperplane_origin (attrs t) = None)
         \<longleftrightarrow> (child1 t = None \<and> child2 t = None)) \<and>
      ((child1 t = None) \<longleftrightarrow> (child2 t = None)) \<and>
      (\<forall>c. child1 t = Some c \<or> child2 t = Some c \<longrightarrow> leaf_inv c)) \<and>
   (children_inv self \<and> fit_rec h self X y delta = Inr t1 \<longrightarrow> leaf_inv t1) \<and>
   (children_inv self \<and> fit h self X y delta prune = Inr t2 \<longrightarrow> leaf_inv t2) \<and>
   (leaf_inv t \<and> prune_rec h t = Inr t3 \<longrightarrow> leaf_inv t3)"
proof (intro conjI impI)
  assume l: "leaf_inv t"
  then have sc: "split_consistent t" by (cases t) simp
  show "is_leaf t = Inr (best_hyperplane_normal (attrs t) = None \<and>
                       best_hyperplane_origin (attrs t) = None)"
    using is_leaf_inv[OF l] sc by (auto simp: split_consistent_def)
  show "(best_hyperplane_normal (attrs t) = None \<and> best_hyperplane_origin (attrs t) = None)
         \<longleftrightarrow> (child1 t = None \<and> child2 t = None)"
    using sc by (auto simp: split_consistent_def)
  show "(child1 t = None) \<longleftrightarrow> (child2 t = None)"
    using sc by (simp add: split_consistent_def)
  show "\<forall>c. child1 t = Some c \<or> child2 t = Some c \<longrightarrow> leaf_inv c"
    using l by (cases t) auto
next
  assume "children_inv self \<and> fit_rec h self X y delta = Inr t1"
  then show "leaf_inv t1" using fit_rec_inv[of self h X y delta t1] by simp
next
  assume "children_inv self \<and> fit h self X y delta prune = Inr t2"
  then show "leaf_inv t2" using fit_leaf_inv[of self h X y delta prune t2] by simp
next
  assume "leaf_inv t \<and> prune_rec h t = Inr t3"
  then show "leaf_inv t3"
    using prune_rec_bottom_up[of t h] leaf_inv_bottom_up_prune[of t h] by auto
qed

theorem leaf_iff_no_split_iff_no_children_witness:
  "children_inv ex_root \<and>
   fit_rec ex_hooks ex_root ex_X4 ex_y4 0 = Inr ex_tree_same \<and> leaf_inv ex_tree_same \<and>
   is_leaf ex_tree_same = Inr False \<and> child1 ex_tree_same \<noteq> None \<and> child2 ex_tree_same \<noteq> None \<and>
   fit ex_hooks ex_root ex_X4 ex_y4 0 True = Inr ex_pruned_same \<and> leaf_inv ex_pruned_same \<and>
   prune_rec ex_hooks ex_tree_same = Inr ex_pruned_same \<and>
   is_leaf ex_pruned_same = Inr True \<and> child1 ex_pruned_same = None \<and> child2 ex_pruned_same = None"
proof -
  have c: "children_inv ex_root" by code_simp
  have f: "fit ex_hooks ex_root ex_X4 ex_y4 0 True = Inr ex_pruned_same" by code_simp
  note inst = leaf_iff_no_split_iff_no_children[of _ ex_root ex_hooks ex_X4 ex_y4 0]
  from inst[of ex_tree_same ex_tree_same] c ex_fit_same have l1: "leaf_inv ex_tree_same" by blast
  from inst[of ex_tree_same _ True ex_pruned_same] c f have l2: "leaf_inv ex_pruned_same" by blast
  from inst[of ex_tree_same _ _ _ ex_pruned_same] l1 ex_prune_same have l3: "leaf_inv ex_pruned_same" by blast
  from inst[of ex_tree_same] l1 have a: "is_leaf ex_tree_same = Inr False"
    "child1 ex_tree_same \<noteq> None" "child2 ex_tree_same \<noteq> None"
    by (simp_all add: ex_tree_same_def)
  from inst[of ex_pruned_same] l2 have b: "is_leaf ex_pruned_same = Inr True"
    "child1 ex_pruned_same = None" "child2 ex_pruned_same = None"
    by (simp_all add: ex_pruned_same_def)
  from c ex_fit_same l1 a f l2 ex_prune_same b show ?thesis by simp
qed

text \<open>
  C6. \<^verbatim>\<open>_prune\<close> on a fitted tree returns, and running it again on the result returns
  the result unchanged.
\<close>

theorem prune_reaches_fixpoint:
  assumes "leaf_inv t"
  shows "\<exists>t'. prune_rec h t = Inr t' \<and> prune_rec h t' = Inr t' \<and> leaf_inv t' \<and>
              depth_and_leaves t' = Inr (Max (set (leaf_levels t')), length (leaf_levels t'))"
  using prune_rec_bottom_up[OF assms, of h] leaf_inv_bottom_up_prune[OF assms, of h]
    depth_and_leaves_inv[OF leaf_inv_bottom_up_prune[OF assms], of h]
  by simp

theorem prune_reaches_fixpoint_witness:
  "leaf_inv ex_tree_same \<and>
   prune_rec ex_hooks ex_tree_same = Inr ex_pruned_same \<and> ex_pruned_same \<noteq> ex_tree_same \<and>
   prune_rec ex_hooks ex_pruned_same = Inr ex_pruned_same"
proof -
  have h1: "leaf_inv ex_tree_same" by code_simp
  have ne: "ex_pruned_same \<noteq> ex_tree_same" by (simp add: ex_pruned_same_def ex_tree_same_def)
  from prune_reaches_fixpoint[OF h1, of ex_hooks] ex_prune_same
  have "prune_rec ex_hooks ex_pruned_same = Inr ex_pruned_same" by auto
  with h1 ne ex_prune_same show ?thesis by simp
qed

text \<open>
  What pruning does keep. On a fitted tree \<^verbatim>\<open>_prune\<close> returns the bottom-up pruned
  tree: it collapses exactly the nodes whose two pruned children are leaves with the same
  prediction. The leaf count does not grow. Predictions are the same for every input
  whose rows are all routed to a leaf, provided the prediction of each collapsed node, as
  a leaf, is that of its children.
\<close>

lemma prune_rec_collapses_equal_leaf_children:
  assumes "leaf_inv t"
  shows "prune_rec h t = Inr (bottom_up_prune h t) \<and>
         (\<exists>d l d' l'. depth_and_leaves t = Inr (d, l) \<and>
                      depth_and_leaves (bottom_up_prune h t) = Inr (d', l') \<and> l' \<le> l) \<and>
         (collapses_agree h t \<and> (\<forall>d. n_dim (attrs t) = Some d \<longrightarrow> dims_ok d t) \<longrightarrow>
            (\<forall>X. (\<forall>r\<in>set (rows X). leaf_for t r \<noteq> None) \<longrightarrow>
                  fst (predict h (bottom_up_prune h t) X) = fst (predict h t X)))"
  using prune_rec_bottom_up[OF assms, of h] depth_and_leaves_inv[OF assms]
    depth_and_leaves_inv[OF leaf_inv_bottom_up_prune[OF assms], of h]
    leaves_bottom_up_prune[of h t] predict_bottom_up_prune[OF assms, of h]
  by simp

lemma ex_same_collapses_agree: "collapses_agree ex_hooks ex_tree_same"
  by code_simp

lemma cx_collapse_disagrees: "\<not> collapses_agree ex_hooks cx_tree"
  by code_simp

text \<open>
  C5. Pruning is to leave every training-set prediction as it was. With the prior
  \<open>[5/2, 1]\<close> it does not: the tree fitted without pruning has two leaves and predicts
  class 0 on all four training rows; fitted with pruning, or pruned afterwards, it is a
  single leaf and predicts class 1 on all of them.
\<close>

theorem prune_changes_training_predictions:
  "fit ex_hooks cx_root ex_X4 ex_y4 0 False = Inr cx_tree \<and>
   fit ex_hooks cx_root ex_X4 ex_y4 0 True = Inr cx_pruned \<and>
   prune_rec ex_hooks cx_tree = Inr cx_pruned \<and>
   depth_and_leaves cx_tree = Inr (1, 2) \<and> depth_and_leaves cx_pruned = Inr (0, 1) \<and>
   fst (predict ex_hooks cx_tree ex_X4) = Inr [Finite 0, Finite 0, Finite 0, Finite 0] \<and>
   fst (predict ex_hooks cx_pruned ex_X4) = Inr [Finite 1, Finite 1, Finite 1, Finite 1]"
proof -
  have "fit ex_hooks cx_root ex_X4 ex_y4 0 False = Inr cx_tree" by code_simp
  moreover have "depth_and_leaves cx_tree = Inr (1, 2)" "depth_and_leaves cx_pruned = Inr (0, 1)"
    by code_simp+
  ultimately show ?thesis
    using cx_prune cx_fit_prune cx_predict_before cx_predict_after by simp
qed

end
